theory Spec2Isabelle
  imports Main "HOL-Library.AList" "HOL-Library.Finite_Map"
begin

section \<open>Values and errors\<close>

text \<open>
  The Python values that record attributes, record ids and blocking keys range over here:
  \<^verbatim>\<open>None\<close>, integers, strings and dictionaries with string keys (the raw object of an
  \<^verbatim>\<open>AutoGeneratedRecord\<close>). On these, HOL equality is Python's \<^verbatim>\<open>==\<close>. A \<^verbatim>\<open>str\<close> is a
  \<open>string\<close>, one \<open>char\<close> per character.
\<close>

datatype pyval = PNone | PInt int | PStr string | PDict "(string, pyval) fmap"

text \<open>
  The exceptions that the modelled code raises or lets through; \<open>OtherError\<close> stands for
  any other exception that a getter or a key function raises, by the name of its class.
\<close>

datatype error =
    TypeError
  | ValueError
  | NotImplementedError
  | AttributeError
  | KeyError
  | ConfigurationError
  | OtherError string

text \<open>\<^verbatim>\<open>isinstance(value, str)\<close>\<close>

fun isinstance_str :: "pyval \<Rightarrow> bool" where
  "isinstance_str (PStr s) = True"
| "isinstance_str v = False"

section \<open>Block\<close>

text \<open>
  Modelled from the spec: the class \<^verbatim>\<open>Block\<close> (\<^verbatim>\<open>rltk/blocking/block.py\<close>) is imported by the
  hash block generator but its source is not at hand. The spec describes it as a mapping from a
  blocking key to a set of (dataset-id, record-id) pairs, internally a two-level association
  key \<rightarrow> dataset-id \<rightarrow> set of record-ids, created empty, populated by \<^verbatim>\<open>add\<close>, and iterated
  as a finite sequence of (key, dataset-id, record-id) triples. The two levels are association
  lists in insertion order and the innermost set is a list without repetition.
\<close>

type_synonym Block = "(string \<times> (string \<times> pyval list) list) list"

text \<open>Modelled from the spec: a freshly created \<^verbatim>\<open>Block()\<close> is empty.\<close>

definition Block_empty :: Block where
  "Block_empty = []"

text \<open>Modelled from the spec: insertion of a record id into the set of one dataset.\<close>

definition add_record_id :: "pyval \<Rightarrow> pyval list \<Rightarrow> pyval list" where
  "add_record_id r rs = (if r \<in> set rs then rs else rs @ [r])"

text \<open>Modelled from the spec: insertion under a dataset id, the second level of a \<^verbatim>\<open>Block\<close>.\<close>

fun add_dataset_id ::
  "string \<Rightarrow> pyval \<Rightarrow> (string \<times> pyval list) list \<Rightarrow> (string \<times> pyval list) list" where
  "add_dataset_id d r [] = [(d, [r])]"
| "add_dataset_id d r ((d', rs) # m) =
     (if d = d' then (d', add_record_id r rs) # m else (d', rs) # add_dataset_id d r m)"

text \<open>
  Modelled from the spec: \<^verbatim>\<open>Block.add(key, dataset_id, record_id)\<close> inserts the pair under
  \<^verbatim>\<open>key\<close>.
\<close>

fun Block_add :: "Block \<Rightarrow> string \<Rightarrow> string \<Rightarrow> pyval \<Rightarrow> Block" where
  "Block_add [] k d r = [(k, [(d, [r])])]"
| "Block_add ((k', m) # b) k d r =
     (if k = k' then (k', add_dataset_id d r m) # b else (k', m) # Block_add b k d r)"

text \<open>
  Modelled from the spec: \<^verbatim>\<open>Block.__iter__\<close> yields every (key, dataset-id, record-id) triple
  of the block.
\<close>

definition Block_iter :: "Block \<Rightarrow> (string \<times> string \<times> pyval) list" where
  "Block_iter b =
     concat (map (\<lambda>(k, m). concat (map (\<lambda>(d, rs). map (\<lambda>r. (k, d, r)) rs) m)) b)"

text \<open>The membership of a block: the set of triples its iteration yields.\<close>

definition members :: "Block \<Rightarrow> (string \<times> string \<times> pyval) set" where
  "members b = set (Block_iter b)"

section \<open>Properties of Block\<close>

lemma add_record_id_set: "set (add_record_id r rs) = insert r (set rs)"
  by (auto simp: add_record_id_def)

lemma add_record_id_twice: "add_record_id r (add_record_id r rs) = add_record_id r rs"
  by (simp add: add_record_id_def)

lemma add_dataset_id_twice:
  "add_dataset_id d r (add_dataset_id d r m) = add_dataset_id d r m"
  by (induction d r m rule: add_dataset_id.induct)
     (simp_all add: add_record_id_def)

lemma Block_add_twice: "Block_add (Block_add b k d r) k d r = Block_add b k d r"
  by (induction b k d r rule: Block_add.induct)
     (simp_all add: add_dataset_id_twice add_record_id_def)

lemma Block_iter_Nil: "Block_iter [] = []"
  by (simp add: Block_iter_def)

lemma Block_iter_Cons:
  "Block_iter ((k, m) # b) =
     concat (map (\<lambda>(d, rs). map (\<lambda>r. (k, d, r)) rs) m) @ Block_iter b"
  by (simp add: Block_iter_def)

lemma group_add_dataset_id:
  "set (concat (map (\<lambda>(d', rs). map (\<lambda>x. (k, d', x)) rs) (add_dataset_id d r m))) =
     insert (k, d, r) (set (concat (map (\<lambda>(d', rs). map (\<lambda>x. (k, d', x)) rs) m)))"
  by (induction d r m rule: add_dataset_id.induct)
     (auto simp: add_record_id_set)

lemma members_empty: "members Block_empty = {}"
  by (simp add: members_def Block_empty_def Block_iter_Nil)

lemma members_Block_add: "members (Block_add b k d r) = insert (k, d, r) (members b)"
proof (induction b k d r rule: Block_add.induct)
  case (1 k d r)
  show ?case by (simp add: members_def Block_iter_def)
next
  case (2 k' m b k d r)
  show ?case
  proof (cases "k = k'")
    case True
    then show ?thesis
      using group_add_dataset_id [of k' d r m]
      by (simp add: members_def Block_iter_Cons)
  next
    case False
    with "2" show ?thesis
      by (auto simp: members_def Block_iter_Cons)
  qed
qed

text \<open>
  A block is well formed when no key, no dataset id under a key and no record id under a
  dataset id is repeated. The empty block is, and \<^verbatim>\<open>add\<close> keeps it so; then the iteration
  yields no triple twice.
\<close>

definition Block_wf :: "Block \<Rightarrow> bool" where
  "Block_wf b \<longleftrightarrow>
     distinct (map fst b) \<and>
     list_all (\<lambda>(k, m). distinct (map fst m) \<and> list_all (\<lambda>(d, rs). distinct rs) m) b"

lemma add_dataset_id_keys:
  "set (map fst (add_dataset_id d r m)) = insert d (set (map fst m))"
  by (induction d r m rule: add_dataset_id.induct) auto

lemma add_dataset_id_wf:
  "distinct (map fst m) \<and> list_all (\<lambda>(d, rs). distinct rs) m \<Longrightarrow>
   distinct (map fst (add_dataset_id d r m)) \<and>
   list_all (\<lambda>(d, rs). distinct rs) (add_dataset_id d r m)"
proof (induction d r m rule: add_dataset_id.induct)
  case (1 d r)
  show ?case by simp
next
  case (2 d r d' rs m)
  have keys: "set (map fst (add_dataset_id d r m)) = insert d (set (map fst m))"
    by (rule add_dataset_id_keys)
  show ?case
  proof (cases "d = d'")
    case True
    with "2.prems" show ?thesis by (simp add: add_record_id_def)
  next
    case False
    with "2" keys show ?thesis by auto
  qed
qed

lemma Block_add_keys: "set (map fst (Block_add b k d r)) = insert k (set (map fst b))"
  by (induction b k d r rule: Block_add.induct) auto

lemma Block_add_wf: "Block_wf b \<Longrightarrow> Block_wf (Block_add b k d r)"
proof (induction b k d r rule: Block_add.induct)
  case (1 k d r)
  show ?case by (simp add: Block_wf_def)
next
  case (2 k' m b k d r)
  have keys: "set (map fst (Block_add b k d r)) = insert k (set (map fst b))"
    by (rule Block_add_keys)
  show ?case
  proof (cases "k = k'")
    case True
    with "2.prems" add_dataset_id_wf [of m d r] show ?thesis
      by (simp add: Block_wf_def)
  next
    case False
    from "2.prems" have "Block_wf b" by (simp add: Block_wf_def)
    with False "2.IH" have "Block_wf (Block_add b k d r)" by simp
    with False "2.prems" keys show ?thesis
      by (auto simp: Block_wf_def)
  qed
qed

lemma group_distinct:
  "distinct (map fst m) \<Longrightarrow> list_all (\<lambda>(d, rs). distinct rs) m \<Longrightarrow>
   distinct (concat (map (\<lambda>(d, rs). map (\<lambda>r. (k, d, r)) rs) m))"
proof (induction m)
  case Nil
  show ?case by simp
next
  case (Cons p m)
  obtain d rs where p: "p = (d, rs)" by (cases p)
  from Cons.prems p have "d \<notin> fst ` set m" by simp
  then have disj: "\<And>x d' rs'. (d', rs') \<in> set m \<Longrightarrow> x \<in> set rs' \<Longrightarrow> d' \<noteq> d"
    by force
  from Cons p have "distinct (concat (map (\<lambda>(d, rs). map (\<lambda>r. (k, d, r)) rs) m))"
    by simp
  moreover from Cons.prems p have "distinct (map (\<lambda>r. (k, d, r)) rs)"
    by (simp add: distinct_map inj_on_def)
  ultimately show ?case
    using p disj by auto
qed

lemma group_keys:
  "t \<in> set (concat (map (\<lambda>(d, rs). map (\<lambda>r. (k, d, r)) rs) m)) \<Longrightarrow> fst t = k"
  by auto

lemma Block_iter_keys: "t \<in> set (Block_iter b) \<Longrightarrow> fst t \<in> fst ` set b"
  by (induction b) (auto simp: Block_iter_Nil Block_iter_Cons)

lemma Block_wf_distinct_iter: "Block_wf b \<Longrightarrow> distinct (Block_iter b)"
proof (induction b)
  case Nil
  show ?case by (simp add: Block_iter_Nil)
next
  case (Cons p b)
  obtain k m where p: "p = (k, m)" by (cases p)
  from Cons.prems p have wf: "Block_wf b" and k: "k \<notin> fst ` set b"
    and m: "distinct (map fst m)" "list_all (\<lambda>(d, rs). distinct rs) m"
    by (simp_all add: Block_wf_def)
  have "set (concat (map (\<lambda>(d, rs). map (\<lambda>r. (k, d, r)) rs) m)) \<inter> set (Block_iter b) = {}"
  proof (rule ccontr)
    assume "\<not> ?thesis"
    then obtain t where t1: "t \<in> set (concat (map (\<lambda>(d, rs). map (\<lambda>r. (k, d, r)) rs) m))"
      and t2: "t \<in> set (Block_iter b)" by blast
    from t1 have "fst t = k" by (rule group_keys)
    with Block_iter_keys [OF t2] k show False by simp
  qed
  with Cons.IH [OF wf] group_distinct [OF m, of k] p show ?case
    by (simp add: Block_iter_Cons)
qed

lemma distinct_count_list_one: "distinct xs \<Longrightarrow> x \<in> set xs \<Longrightarrow> count_list xs x = 1"
  by (induction xs) auto

text \<open>
  C7. Adding the same (key, dataset-id, record-id) triple to a block a second time changes
  nothing: the block after the second add is the block after the first, so its membership set
  is the same; and in a well-formed block (the empty block and every block built from it by
  add) the triple is then listed exactly once by the iteration, so no duplicate was created.
\<close>

theorem Block_add_idempotent:
  "Block_add (Block_add b k d r) k d r = Block_add b k d r \<and>
   members (Block_add (Block_add b k d r) k d r) = members (Block_add b k d r) \<and>
   (k, d, r) \<in> members (Block_add b k d r) \<and>
   (Block_wf b \<longrightarrow>
      Block_wf (Block_add (Block_add b k d r) k d r) \<and>
      count_list (Block_iter (Block_add (Block_add b k d r) k d r)) (k, d, r) = 1)"
proof -
  have twice: "Block_add (Block_add b k d r) k d r = Block_add b k d r"
    by (rule Block_add_twice)
  have mem: "(k, d, r) \<in> members (Block_add b k d r)"
    by (simp add: members_Block_add)
  have "count_list (Block_iter (Block_add b k d r)) (k, d, r) = 1" if wf: "Block_wf b"
  proof -
    from wf have "distinct (Block_iter (Block_add b k d r))"
      by (intro Block_wf_distinct_iter Block_add_wf)
    moreover from mem have "(k, d, r) \<in> set (Block_iter (Block_add b k d r))"
      by (simp add: members_def)
    ultimately show ?thesis
      by (rule distinct_count_list_one)
  qed
  with twice mem show ?thesis
    by (simp add: Block_add_wf)
qed

theorem Block_add_idempotent_witness:
  "Block_wf [(''john'', [(''A'', [PStr ''a1''])])] \<and>
   Block_add (Block_add [(''john'', [(''A'', [PStr ''a1''])])] ''john'' ''B'' (PStr ''b1''))
      ''john'' ''B'' (PStr ''b1'') =
     [(''john'', [(''A'', [PStr ''a1'']), (''B'', [PStr ''b1''])])] \<and>
   count_list (Block_iter [(''john'', [(''A'', [PStr ''a1'']), (''B'', [PStr ''b1''])])])
      (''john'', ''B'', PStr ''b1'') = 1"
  using Block_add_idempotent [of "[(''john'', [(''A'', [PStr ''a1''])])]" "''john''" "''B''" "PStr ''b1''"]
  by (simp add: Block_wf_def add_record_id_def)

section \<open>Records\<close>

text \<open>
  A class is \<^verbatim>\<open>Record\<close> itself or a named class with its base class (single inheritance, as
  everywhere in the source); its method resolution order is the chain up to \<^verbatim>\<open>Record\<close>.
\<close>

datatype cls = Record | Class string cls

fun mro :: "cls \<Rightarrow> cls list" where
  "mro Record = [Record]"
| "mro (Class name base) = Class name base # mro base"

text \<open>A record instance: its class and its \<^verbatim>\<open>__dict__\<close>, in insertion order.\<close>

record inst =
  obj_class :: cls
  obj_dict :: "(string \<times> pyval) list"

text \<open>
  What a class body binds a name to: a \<^verbatim>\<open>property\<close> with its getter, a \<^verbatim>\<open>cached_property\<close>
  with the \<^verbatim>\<open>__name__\<close> of its function and the function, or a plain value. Getters are pure
  functions of the instance that return a value or raise.
\<close>

datatype member =
    Property "inst \<Rightarrow> error + pyval"
  | CachedProperty string "inst \<Rightarrow> error + pyval"
  | Attribute pyval

text \<open>
  The \<^verbatim>\<open>__dict__\<close> of a class, in definition order, and the class attribute
  \<^verbatim>\<open>remove_raw_object\<close> when the class itself binds it.
\<close>

record class_def =
  class_dict :: "(string \<times> member) list"
  remove_raw_object_flag :: "bool option"

type_synonym class_table = "cls \<Rightarrow> class_def"

text \<open>
  \<^verbatim>\<open>class Record\<close>: \<^verbatim>\<open>remove_raw_object = False\<close> and the property \<^verbatim>\<open>id\<close> that raises
  \<^verbatim>\<open>NotImplementedError\<close>.
\<close>

definition Record_class :: class_def where
  "Record_class =
     \<lparr>class_dict = [(''id'', Property (\<lambda>obj. Inl NotImplementedError))],
      remove_raw_object_flag = Some False\<rparr>"

text \<open>The definition of a class: that of \<^verbatim>\<open>Record\<close> is fixed, the others are in the table.\<close>

definition class_def_of :: "class_table \<Rightarrow> cls \<Rightarrow> class_def" where
  "class_def_of ct c = (case c of Record \<Rightarrow> Record_class | Class name base \<Rightarrow> ct c)"

text \<open>\<^verbatim>\<open>Record.__init__\<close>\<close>

definition Record_init :: "cls \<Rightarrow> pyval \<Rightarrow> inst" where
  "Record_init c raw_object = \<lparr>obj_class = c, obj_dict = [(''raw_object'', raw_object)]\<rparr>"

text \<open>The lookup of a name along the method resolution order.\<close>

fun lookup_member :: "class_table \<Rightarrow> cls list \<Rightarrow> string \<Rightarrow> member option" where
  "lookup_member ct [] name = None"
| "lookup_member ct (c # cs) name =
     (case map_of (class_dict (class_def_of ct c)) name of
        Some m \<Rightarrow> Some m
      | None \<Rightarrow> lookup_member ct cs name)"

text \<open>
  \<^verbatim>\<open>cached_property.__get__(obj, cls)\<close> on an instance \<^verbatim>\<open>obj\<close>. The arguments are the
  \<^verbatim>\<open>__name__\<close> of the decorated function, the function, the instance and the trace of the
  getter calls made so far; the result is the value or the exception of the function, the
  instance afterwards and the trace afterwards. (With \<^verbatim>\<open>obj is None\<close>, an access on the class,
  the descriptor returns itself; no instance is involved.)
\<close>

definition cached_property_get ::
  "string \<Rightarrow> (inst \<Rightarrow> error + pyval) \<Rightarrow> inst \<Rightarrow> string list \<Rightarrow>
   (error + pyval) \<times> inst \<times> string list" where
  "cached_property_get cached_name func obj calls =
     (case map_of (obj_dict obj) cached_name of
        Some value \<Rightarrow> (Inr value, obj, calls)
      | None \<Rightarrow>
          (case func obj of
             Inl e \<Rightarrow> (Inl e, obj, calls @ [cached_name])
           | Inr value \<Rightarrow>
               (Inr value,
                obj\<lparr>obj_dict := AList.update cached_name value (obj_dict obj)\<rparr>,
                calls @ [cached_name])))"

text \<open>
  \<^verbatim>\<open>getattr(obj, name)\<close> and \<^verbatim>\<open>obj.name\<close>: a property or cached property of the class comes
  first (both are data descriptors), then the instance \<^verbatim>\<open>__dict__\<close>, then a plain class
  attribute.
\<close>

definition getattr ::
  "class_table \<Rightarrow> inst \<Rightarrow> string \<Rightarrow> string list \<Rightarrow>
   (error + pyval) \<times> inst \<times> string list" where
  "getattr ct obj name calls =
     (case lookup_member ct (mro (obj_class obj)) name of
        Some (CachedProperty cached_name func) \<Rightarrow>
          cached_property_get cached_name func obj calls
      | Some (Property fget) \<Rightarrow> (fget obj, obj, calls @ [name])
      | Some (Attribute v) \<Rightarrow>
          (case map_of (obj_dict obj) name of
             Some w \<Rightarrow> (Inr w, obj, calls)
           | None \<Rightarrow> (Inr v, obj, calls))
      | None \<Rightarrow>
          (case map_of (obj_dict obj) name of
             Some w \<Rightarrow> (Inr w, obj, calls)
           | None \<Rightarrow> (Inl AttributeError, obj, calls)))"

text \<open>The value of an attribute read, without the state it leaves.\<close>

definition attr_value :: "class_table \<Rightarrow> inst \<Rightarrow> string \<Rightarrow> error + pyval" where
  "attr_value ct obj name = fst (getattr ct obj name [])"

subsection \<open>Equality\<close>

text \<open>\<^verbatim>\<open>isinstance(obj, c)\<close> for a record \<^verbatim>\<open>obj\<close> and a record class \<^verbatim>\<open>c\<close>\<close>

definition isinstance :: "inst \<Rightarrow> cls \<Rightarrow> bool" where
  "isinstance obj c \<longleftrightarrow> c \<in> set (mro (obj_class obj))"

text \<open>
  \<^verbatim>\<open>Record.__eq__(self, other)\<close>. The two reads of \<^verbatim>\<open>id\<close> may fill the caches of the two
  instances; that does not change the values read, and the instances afterwards are left
  out here.
\<close>

definition Record_eq :: "class_table \<Rightarrow> inst \<Rightarrow> inst \<Rightarrow> error + bool" where
  "Record_eq ct self other =
     (if \<not> isinstance other (obj_class self) then Inr False
      else (case attr_value ct self ''id'' of
              Inl e \<Rightarrow> Inl e
            | Inr a \<Rightarrow>
                (case attr_value ct other ''id'' of
                   Inl e \<Rightarrow> Inl e
                 | Inr b \<Rightarrow> Inr (a = b))))"

text \<open>
  The expression \<^verbatim>\<open>v == w\<close> on two records whose classes inherit \<^verbatim>\<open>Record.__eq__\<close>: when the
  class of \<^verbatim>\<open>w\<close> is a proper subclass of the class of \<^verbatim>\<open>v\<close>, Python calls the method of
  \<^verbatim>\<open>w\<close> first, otherwise the method of \<^verbatim>\<open>v\<close>; \<^verbatim>\<open>Record.__eq__\<close> never returns
  \<^verbatim>\<open>NotImplemented\<close>, so the first call decides.
\<close>

definition eq_operator :: "class_table \<Rightarrow> inst \<Rightarrow> inst \<Rightarrow> error + bool" where
  "eq_operator ct v w =
     (if obj_class v \<noteq> obj_class w \<and> obj_class v \<in> set (mro (obj_class w))
      then Record_eq ct w v
      else Record_eq ct v w)"

subsection \<open>Validation and the property cache\<close>

text \<open>
  \<^verbatim>\<open>$\<close> (without \<^verbatim>\<open>re.MULTILINE\<close>) matches at the end of the string and just before a
  newline that ends the string.
\<close>

definition at_end :: "string \<Rightarrow> bool" where
  "at_end rest \<longleftrightarrow> rest = [] \<or> rest = [CHR 0x0A]"

text \<open>
  \<^verbatim>\<open>re_record_id.match(s)\<close> for \<^verbatim>\<open>re_record_id = re.compile(r'^[^*]{1,255}$')\<close>: some
  \<open>n\<close> from 1 to 255 leading characters, none of them \<^verbatim>\<open>*\<close>, are followed by a position
  where \<^verbatim>\<open>$\<close> matches.
\<close>

definition re_record_id_match :: "string \<Rightarrow> bool" where
  "re_record_id_match s \<longleftrightarrow>
     list_ex (\<lambda>n. n \<le> length s \<and> list_all (\<lambda>c. c \<noteq> CHR ''*'') (take n s) \<and> at_end (drop n s))
       [1..<256]"

text \<open>
  \<^verbatim>\<open>validate_record(obj)\<close>. \<^verbatim>\<open>obj.id\<close> is read twice; \<^verbatim>\<open>re\<close> raises \<^verbatim>\<open>TypeError\<close> on a
  value that is not a string.
\<close>

definition validate_record ::
  "class_table \<Rightarrow> inst \<Rightarrow> string list \<Rightarrow> (error + unit) \<times> inst \<times> string list" where
  "validate_record ct obj calls =
     (case getattr ct obj ''id'' calls of
        (Inl e, obj1, calls1) \<Rightarrow> (Inl e, obj1, calls1)
      | (Inr v, obj1, calls1) \<Rightarrow>
          if \<not> isinstance_str v then (Inl TypeError, obj1, calls1)
          else (case getattr ct obj1 ''id'' calls1 of
                  (Inl e, obj2, calls2) \<Rightarrow> (Inl e, obj2, calls2)
                | (Inr (PStr s), obj2, calls2) \<Rightarrow>
                    if \<not> re_record_id_match s then (Inl ValueError, obj2, calls2)
                    else (Inr (), obj2, calls2)
                | (Inr _, obj2, calls2) \<Rightarrow> (Inl TypeError, obj2, calls2)))"

text \<open>The decorator \<^verbatim>\<open>remove_raw_object(cls)\<close>\<close>

definition remove_raw_object :: "class_def \<Rightarrow> class_def" where
  "remove_raw_object c = c\<lparr>remove_raw_object_flag := Some True\<rparr>"

text \<open>\<^verbatim>\<open>obj.__class__.remove_raw_object\<close>: the first binding along the resolution order.\<close>

fun lookup_flag :: "class_table \<Rightarrow> cls list \<Rightarrow> bool" where
  "lookup_flag ct [] = False"
| "lookup_flag ct (c # cs) =
     (case remove_raw_object_flag (class_def_of ct c) of
        Some b \<Rightarrow> b
      | None \<Rightarrow> lookup_flag ct cs)"

text \<open>\<^verbatim>\<open>isinstance(prop_type, cached_property)\<close>\<close>

fun is_cached_property :: "member \<Rightarrow> bool" where
  "is_cached_property (CachedProperty cached_name func) = True"
| "is_cached_property m = False"

text \<open>
  The loop of \<^verbatim>\<open>generate_record_property_cache\<close> over the items of
  \<^verbatim>\<open>obj.__class__.__dict__\<close>.
\<close>

fun cache_items ::
  "class_table \<Rightarrow> (string \<times> member) list \<Rightarrow> inst \<Rightarrow> string list \<Rightarrow>
   (error + unit) \<times> inst \<times> string list" where
  "cache_items ct [] obj calls = (Inr (), obj, calls)"
| "cache_items ct ((prop_name, prop_type) # items) obj calls =
     (if is_cached_property prop_type
      then (case getattr ct obj prop_name calls of
              (Inl e, obj1, calls1) \<Rightarrow> (Inl e, obj1, calls1)
            | (Inr v, obj1, calls1) \<Rightarrow> cache_items ct items obj1 calls1)
      else cache_items ct items obj calls)"

text \<open>\<^verbatim>\<open>generate_record_property_cache(obj)\<close>\<close>

definition generate_record_property_cache ::
  "class_table \<Rightarrow> inst \<Rightarrow> string list \<Rightarrow> (error + unit) \<times> inst \<times> string list" where
  "generate_record_property_cache ct obj calls =
     (case cache_items ct (class_dict (class_def_of ct (obj_class obj))) obj calls of
        (Inl e, obj1, calls1) \<Rightarrow> (Inl e, obj1, calls1)
      | (Inr u, obj1, calls1) \<Rightarrow>
          (case validate_record ct obj1 calls1 of
             (Inl e, obj2, calls2) \<Rightarrow> (Inl e, obj2, calls2)
           | (Inr u, obj2, calls2) \<Rightarrow>
               if lookup_flag ct (mro (obj_class obj2))
               then (case map_of (obj_dict obj2) ''raw_object'' of
                       None \<Rightarrow> (Inl KeyError, obj2, calls2)
                     | Some raw \<Rightarrow>
                         (Inr (),
                          obj2\<lparr>obj_dict := AList.delete ''raw_object'' (obj_dict obj2)\<rparr>,
                          calls2))
               else (Inr (), obj2, calls2)))"

text \<open>
  \<^verbatim>\<open>AutoGeneratedRecord\<close>: decorated with \<^verbatim>\<open>remove_raw_object\<close>, with the cached property
  \<^verbatim>\<open>id\<close> that returns \<^verbatim>\<open>self.raw_object['id']\<close>.
\<close>

definition AutoGeneratedRecord :: cls where
  "AutoGeneratedRecord = Class ''AutoGeneratedRecord'' Record"

definition AutoGeneratedRecord_id :: "inst \<Rightarrow> error + pyval" where
  "AutoGeneratedRecord_id self =
     (case map_of (obj_dict self) ''raw_object'' of
        None \<Rightarrow> Inl AttributeError
      | Some (PDict d) \<Rightarrow> (case fmlookup d ''id'' of None \<Rightarrow> Inl KeyError | Some v \<Rightarrow> Inr v)
      | Some _ \<Rightarrow> Inl TypeError)"

definition AutoGeneratedRecord_class :: class_def where
  "AutoGeneratedRecord_class =
     remove_raw_object
       \<lparr>class_dict = [(''id'', CachedProperty ''id'' AutoGeneratedRecord_id)],
        remove_raw_object_flag = None\<rparr>"

text \<open>A class table with \<^verbatim>\<open>AutoGeneratedRecord\<close> and nothing else declared.\<close>

definition module_classes :: class_table where
  "module_classes c =
     (if c = AutoGeneratedRecord then AutoGeneratedRecord_class
      else \<lparr>class_dict = [], remove_raw_object_flag = None\<rparr>)"

section \<open>Properties of records\<close>

subsection \<open>Equality\<close>

lemma mro_self: "c \<in> set (mro c)"
  by (cases c) simp_all

lemma mro_size: "c \<in> set (mro d) \<Longrightarrow> c = d \<or> size c < size d"
  by (induction d) auto

lemma mro_antisym: "c \<in> set (mro d) \<Longrightarrow> d \<in> set (mro c) \<Longrightarrow> c = d"
  using mro_size [of c d] mro_size [of d c] by auto

text \<open>
  C5. For two records \<open>r\<close> and \<open>s\<close>, \<^verbatim>\<open>r == s\<close> is true exactly when both have the same
  class and their ids are read without error and are equal; when the classes differ the
  comparison is false whatever the ids are (the ids are not even read); and \<^verbatim>\<open>r == s\<close> is
  true exactly when \<^verbatim>\<open>s == r\<close> is.
\<close>

theorem Record_equality:
  "(eq_operator ct r s = Inr True \<longleftrightarrow>
      obj_class r = obj_class s \<and>
      (\<exists>a. attr_value ct r ''id'' = Inr a \<and> attr_value ct s ''id'' = Inr a)) \<and>
   (obj_class r \<noteq> obj_class s \<longrightarrow> eq_operator ct r s = Inr False) \<and>
   (eq_operator ct r s = Inr True \<longleftrightarrow> eq_operator ct s r = Inr True)"
proof -
  have same: "eq_operator ct x y = Inr True \<longleftrightarrow>
      (\<exists>a. attr_value ct x ''id'' = Inr a \<and> attr_value ct y ''id'' = Inr a)"
    if "obj_class x = obj_class y" for x y
    using that mro_self [of "obj_class y"]
    by (auto simp: eq_operator_def Record_eq_def isinstance_def split: sum.splits)
  have diff: "eq_operator ct x y = Inr False" if ne: "obj_class x \<noteq> obj_class y" for x y
  proof (cases "obj_class x \<in> set (mro (obj_class y))")
    case True
    with ne have "obj_class y \<notin> set (mro (obj_class x))"
      using mro_antisym by blast
    with True ne show ?thesis
      by (simp add: eq_operator_def Record_eq_def isinstance_def)
  next
    case False
    then show ?thesis
      by (simp add: eq_operator_def Record_eq_def isinstance_def)
  qed
  show ?thesis
  proof (cases "obj_class r = obj_class s")
    case True
    then show ?thesis
      using same [of r s] same [of s r] by auto
  next
    case False
    then show ?thesis
      using diff [of r s] diff [of s r] by auto
  qed
qed

subsection \<open>The pattern of record ids\<close>

lemma upt_256_iff: "n \<in> set [1..<256] \<longleftrightarrow> 1 \<le> n \<and> n \<le> 255"
proof -
  have "n \<in> set [1..<256] \<longleftrightarrow> 1 \<le> n \<and> n < 256"
    by (simp only: set_upt atLeastLessThan_iff)
  also have "\<dots> \<longleftrightarrow> 1 \<le> n \<and> n \<le> 255" by arith
  finally show ?thesis .
qed

lemma re_record_id_match_unfold:
  "re_record_id_match s \<longleftrightarrow>
     (\<exists>n. 1 \<le> n \<and> n \<le> 255 \<and> n \<le> length s \<and>
          (\<forall>c\<in>set (take n s). c \<noteq> CHR ''*'') \<and> at_end (drop n s))"
  unfolding re_record_id_match_def list_ex_iff list_all_iff Bex_def upt_256_iff
  by (simp only: conj_assoc)

lemma drop_butlast_last: "length s = Suc n \<Longrightarrow> drop n s = [last s]"
proof -
  assume len: "length s = Suc n"
  then have "length (drop n s) = 1" by simp
  then obtain x where x: "drop n s = [x]"
    by (cases "drop n s") auto
  from len have "last (drop n s) = last s" by (simp add: last_drop)
  with x show ?thesis by simp
qed

lemma re_record_id_match_iff:
  "re_record_id_match s \<longleftrightarrow>
     s \<noteq> [] \<and> CHR ''*'' \<notin> set s \<and>
     (length s \<le> 255 \<or> (length s = 256 \<and> last s = CHR 0x0A))"
  (is "?L \<longleftrightarrow> ?R")
proof
  assume ?L
  then obtain n where n: "1 \<le> n" "n \<le> 255" "n \<le> length s"
    and star: "\<forall>c\<in>set (take n s). c \<noteq> CHR ''*''" and e: "at_end (drop n s)"
    unfolding re_record_id_match_unfold by blast
  from n have ne: "s \<noteq> []" by auto
  have sets: "set s = set (take n s) \<union> set (drop n s)"
    using set_append [of "take n s" "drop n s"] by simp
  from e have "drop n s = [] \<or> drop n s = [CHR 0x0A]" by (simp add: at_end_def)
  then show ?R
  proof
    assume d: "drop n s = []"
    with n have "length s = n" by simp
    with sets d star n ne show ?R by auto
  next
    assume d: "drop n s = [CHR 0x0A]"
    then have "length (drop n s) = 1" by simp
    then have len: "length s = Suc n" by simp
    then have "drop n s = [last s]" by (rule drop_butlast_last)
    with d have "last s = CHR 0x0A" by simp
    moreover from sets d star have "CHR ''*'' \<notin> set s" by auto
    ultimately show ?R using n ne len by auto
  qed
next
  assume r: ?R
  show ?L
  proof (cases "length s \<le> 255")
    case True
    from r have "\<forall>c\<in>set (take (length s) s). c \<noteq> CHR ''*''" by auto
    moreover have "at_end (drop (length s) s)" by (simp add: at_end_def)
    moreover from r have "1 \<le> length s" by (cases s) auto
    ultimately show ?L
      unfolding re_record_id_match_unfold using True by blast
  next
    case False
    with r have len: "length s = Suc 255" and l: "last s = CHR 0x0A" by auto
    from len have "drop 255 s = [last s]" by (rule drop_butlast_last)
    with l have "at_end (drop 255 s)" by (simp add: at_end_def)
    moreover from r have "\<forall>c\<in>set (take 255 s). c \<noteq> CHR ''*''"
      by (auto dest: in_set_takeD)
    moreover from len have "(255::nat) \<le> length s" by simp
    ultimately show ?L
      unfolding re_record_id_match_unfold by (intro exI [of _ 255]) simp
  qed
qed

subsection \<open>Validation\<close>

lemma lookup_AutoGeneratedRecord_id:
  "lookup_member module_classes (mro AutoGeneratedRecord) ''id'' =
     Some (CachedProperty ''id'' AutoGeneratedRecord_id)"
  by (simp add: AutoGeneratedRecord_def class_def_of_def module_classes_def
      AutoGeneratedRecord_class_def remove_raw_object_def)

lemma lookup_flag_AutoGeneratedRecord: "lookup_flag module_classes (mro AutoGeneratedRecord)"
  by (simp add: AutoGeneratedRecord_def class_def_of_def module_classes_def
      AutoGeneratedRecord_class_def remove_raw_object_def)

text \<open>An id of 256 characters: 255 letters and a final newline.\<close>

definition long_id :: string where
  "long_id = replicate 255 (CHR ''a'') @ [CHR 0x0A]"

lemma long_id_props: "length long_id = 256" "re_record_id_match long_id"
proof -
  show len: "length long_id = 256" by (simp add: long_id_def)
  have "last long_id = CHR 0x0A" "long_id \<noteq> []" "CHR ''*'' \<notin> set long_id"
    by (simp_all add: long_id_def)
  with len show "re_record_id_match long_id"
    by (simp add: re_record_id_match_iff)
qed

text \<open>
  C6. \<^verbatim>\<open>validate_record\<close> raises \<^verbatim>\<open>ValueError\<close> on a string id that is longer than 255
  characters. The code does not on the id made of 255 letters \<^verbatim>\<open>a\<close> and a final newline:
  it has 256 characters, and the call returns without an exception, because \<^verbatim>\<open>$\<close> in
  \<^verbatim>\<open>re_record_id\<close> also matches before a newline that ends the string.
\<close>

theorem validate_record_accepts_256:
  "length long_id = 256 \<and>
   validate_record module_classes
      (Record_init AutoGeneratedRecord (PDict (fmap_of_list [(''id'', PStr long_id)]))) [] =
     (Inr (),
      \<lparr>obj_class = AutoGeneratedRecord,
       obj_dict = [(''raw_object'', PDict (fmap_of_list [(''id'', PStr long_id)])),
                   (''id'', PStr long_id)]\<rparr>,
      [''id''])"
  by (simp add: long_id_props validate_record_def getattr_def lookup_AutoGeneratedRecord_id
      Record_init_def cached_property_get_def AutoGeneratedRecord_id_def)

subsection \<open>Cached properties\<close>

text \<open>\<open>k\<close> successive reads of \<^verbatim>\<open>obj.name\<close>: the results in order, the instance and the trace.\<close>

fun getattr_times ::
  "class_table \<Rightarrow> inst \<Rightarrow> string \<Rightarrow> string list \<Rightarrow> nat \<Rightarrow>
   (error + pyval) list \<times> inst \<times> string list" where
  "getattr_times ct obj name calls 0 = ([], obj, calls)"
| "getattr_times ct obj name calls (Suc k) =
     (case getattr ct obj name calls of
        (r, obj1, calls1) \<Rightarrow>
          (case getattr_times ct obj1 name calls1 k of
             (rs, obj2, calls2) \<Rightarrow> (r # rs, obj2, calls2)))"

lemma update_absent: "map_of al k = None \<Longrightarrow> AList.update k v al = al @ [(k, v)]"
  by (induction al) (auto split: if_splits)

lemma cached_property_get_stored:
  "map_of (obj_dict obj) cached_name = Some w \<Longrightarrow>
   cached_property_get cached_name func obj calls = (Inr w, obj, calls)"
  by (simp add: cached_property_get_def)

lemma cached_property_get_first:
  "map_of (obj_dict obj) cached_name = None \<Longrightarrow> func obj = Inr v \<Longrightarrow>
   cached_property_get cached_name func obj calls =
     (Inr v, obj\<lparr>obj_dict := obj_dict obj @ [(cached_name, v)]\<rparr>, calls @ [cached_name])"
  by (simp add: cached_property_get_def update_absent)

lemma getattr_cached:
  "lookup_member ct (mro (obj_class obj)) name = Some (CachedProperty cached_name func) \<Longrightarrow>
   getattr ct obj name calls = cached_property_get cached_name func obj calls"
  by (simp add: getattr_def)

lemma getattr_times_stored:
  "lookup_member ct (mro (obj_class obj)) name = Some (CachedProperty cached_name func) \<Longrightarrow>
   map_of (obj_dict obj) cached_name = Some w \<Longrightarrow>
   getattr_times ct obj name calls k = (replicate k (Inr w), obj, calls)"
  by (induction k) (simp_all add: getattr_cached cached_property_get_stored)

text \<open>
  C8. Let \<open>name\<close> be bound by the class of a record (or a base class) to a
  \<^verbatim>\<open>cached_property\<close> of a function that returns \<open>v\<close> on the record, and let nothing be
  stored yet under the name of the function. Then the first read of the attribute calls the
  function, stores \<open>v\<close> in the \<^verbatim>\<open>__dict__\<close> of the instance and returns it; any number of
  reads, the first included, all return \<open>v\<close> with the function called once in total; and
  whenever a value is stored, a read returns it and leaves the instance and the trace of
  calls as they are.
\<close>

theorem cached_property_computed_once:
  assumes look: "lookup_member ct (mro (obj_class obj)) name = Some (CachedProperty cached_name func)"
    and first: "map_of (obj_dict obj) cached_name = None"
    and val: "func obj = Inr v"
  shows "getattr ct obj name calls =
           (Inr v, obj\<lparr>obj_dict := obj_dict obj @ [(cached_name, v)]\<rparr>, calls @ [cached_name]) \<and>
         map_of (obj_dict obj @ [(cached_name, v)]) cached_name = Some v \<and>
         getattr_times ct obj name calls (Suc k) =
           (replicate (Suc k) (Inr v), obj\<lparr>obj_dict := obj_dict obj @ [(cached_name, v)]\<rparr>,
            calls @ [cached_name]) \<and>
         (\<forall>obj' w calls'.
            obj_class obj' = obj_class obj \<and> map_of (obj_dict obj') cached_name = Some w \<longrightarrow>
            getattr ct obj' name calls' = (Inr w, obj', calls'))"
proof -
  let ?obj1 = "obj\<lparr>obj_dict := obj_dict obj @ [(cached_name, v)]\<rparr>"
  have g: "getattr ct obj name calls = (Inr v, ?obj1, calls @ [cached_name])"
    using look first val by (simp add: getattr_cached cached_property_get_first)
  have st: "map_of (obj_dict obj @ [(cached_name, v)]) cached_name = Some v"
    using first by (simp add: map_add_def)
  have look1: "lookup_member ct (mro (obj_class ?obj1)) name = Some (CachedProperty cached_name func)"
    using look by simp
  have "getattr_times ct ?obj1 name (calls @ [cached_name]) k =
          (replicate k (Inr v), ?obj1, calls @ [cached_name])"
    using look1 st by (intro getattr_times_stored) simp_all
  with g have t: "getattr_times ct obj name calls (Suc k) =
      (replicate (Suc k) (Inr v), ?obj1, calls @ [cached_name])"
    by simp
  have "getattr ct obj' name calls' = (Inr w, obj', calls')"
    if "obj_class obj' = obj_class obj" "map_of (obj_dict obj') cached_name = Some w"
    for obj' w calls'
    using that look by (simp add: getattr_cached cached_property_get_stored)
  with g st t show ?thesis by blast
qed

theorem cached_property_computed_once_witness:
  "lookup_member module_classes
      (mro (obj_class (Record_init AutoGeneratedRecord (PDict (fmap_of_list [(''id'', PStr ''a1'')])))))
      ''id'' = Some (CachedProperty ''id'' AutoGeneratedRecord_id) \<and>
   map_of (obj_dict (Record_init AutoGeneratedRecord (PDict (fmap_of_list [(''id'', PStr ''a1'')]))))
      ''id'' = None \<and>
   AutoGeneratedRecord_id (Record_init AutoGeneratedRecord (PDict (fmap_of_list [(''id'', PStr ''a1'')])))
      = Inr (PStr ''a1'') \<and>
   getattr_times module_classes
      (Record_init AutoGeneratedRecord (PDict (fmap_of_list [(''id'', PStr ''a1'')]))) ''id'' [] 3 =
     ([Inr (PStr ''a1''), Inr (PStr ''a1''), Inr (PStr ''a1'')],
      \<lparr>obj_class = AutoGeneratedRecord,
       obj_dict = [(''raw_object'', PDict (fmap_of_list [(''id'', PStr ''a1'')])),
                   (''id'', PStr ''a1'')]\<rparr>,
      [''id''])"
proof -
  let ?obj = "Record_init AutoGeneratedRecord (PDict (fmap_of_list [(''id'', PStr ''a1'')]))"
  have h1: "lookup_member module_classes (mro (obj_class ?obj)) ''id'' =
      Some (CachedProperty ''id'' AutoGeneratedRecord_id)"
    by (simp add: Record_init_def lookup_AutoGeneratedRecord_id)
  have h2: "map_of (obj_dict ?obj) ''id'' = None"
    by (simp add: Record_init_def)
  have h3: "AutoGeneratedRecord_id ?obj = Inr (PStr ''a1'')"
    by (simp add: Record_init_def AutoGeneratedRecord_id_def)
  from cached_property_computed_once [OF h1 h2 h3, of "[]" 2] h1 h2 h3
  show ?thesis
    by (simp add: Record_init_def numeral_3_eq_3 numeral_2_eq_2)
qed

subsection \<open>Reads, validation and the cache loop\<close>

lemma getattr_keeps:
  assumes "getattr ct obj name calls = (res, obj1, calls1)"
  shows "obj_class obj1 = obj_class obj"
    and "map_of (obj_dict obj) k = Some w \<Longrightarrow> map_of (obj_dict obj1) k = Some w"
  using assms
  by (auto simp: getattr_def cached_property_get_def update_conv'
      split: option.splits member.splits sum.splits if_splits)

lemma getattr_again:
  assumes "getattr ct obj name calls = (Inr v, obj1, calls1)"
  shows "fst (getattr ct obj1 name calls') = Inr v"
    and "fst (snd (getattr ct obj1 name calls')) = obj1"
  using assms
  by (auto simp: getattr_def cached_property_get_def update_conv'
      split: option.splits member.splits sum.splits if_splits)

lemma getattr_cached_success:
  assumes "getattr ct obj name calls = (Inr v, obj1, calls1)"
    and "lookup_member ct (mro (obj_class obj)) name = Some (CachedProperty cached_name func)"
  shows "map_of (obj_dict obj1) cached_name = Some v"
  using assms
  by (auto simp: getattr_def cached_property_get_def update_conv'
      split: option.splits sum.splits)

lemma getattr_value_calls:
  "fst (getattr ct obj name calls) = attr_value ct obj name"
  by (auto simp: attr_value_def getattr_def cached_property_get_def
      split: option.splits member.splits sum.splits)

lemma validate_record_keeps:
  assumes "validate_record ct obj calls = (res, obj1, calls1)"
  shows "obj_class obj1 = obj_class obj"
    and "map_of (obj_dict obj) k = Some w \<Longrightarrow> map_of (obj_dict obj1) k = Some w"
proof -
  obtain r1 o1 c1 where g1: "getattr ct obj ''id'' calls = (r1, o1, c1)"
    by (cases "getattr ct obj ''id'' calls") auto
  obtain r2 o2 c2 where g2: "getattr ct o1 ''id'' c1 = (r2, o2, c2)"
    by (cases "getattr ct o1 ''id'' c1") auto
  from assms g1 g2 have "obj1 = o1 \<or> obj1 = o2"
    by (auto simp: validate_record_def split: sum.splits pyval.splits if_splits)
  with getattr_keeps [OF g1] getattr_keeps [OF g2]
  show "obj_class obj1 = obj_class obj"
    and "map_of (obj_dict obj) k = Some w \<Longrightarrow> map_of (obj_dict obj1) k = Some w"
    by auto
qed

lemma validate_record_result:
  "fst (validate_record ct obj calls) =
     (case attr_value ct obj ''id'' of
        Inl e \<Rightarrow> Inl e
      | Inr (PStr s) \<Rightarrow> if re_record_id_match s then Inr () else Inl ValueError
      | Inr _ \<Rightarrow> Inl TypeError)"
proof -
  obtain r1 o1 c1 where g1: "getattr ct obj ''id'' calls = (r1, o1, c1)"
    by (cases "getattr ct obj ''id'' calls") auto
  then have r1: "attr_value ct obj ''id'' = r1"
    using getattr_value_calls [of ct obj "''id''" calls] by simp
  show ?thesis
  proof (cases r1)
    case (Inl e)
    with g1 r1 show ?thesis by (simp add: validate_record_def)
  next
    case (Inr v)
    with g1 getattr_again(1) [of ct obj "''id''" calls v o1 c1 c1]
    have "fst (getattr ct o1 ''id'' c1) = Inr v" by simp
    then obtain o2 c2 where "getattr ct o1 ''id'' c1 = (Inr v, o2, c2)"
      by (cases "getattr ct o1 ''id'' c1") auto
    with g1 r1 Inr show ?thesis
      by (cases v) (simp_all add: validate_record_def)
  qed
qed

lemma validate_record_success:
  assumes "validate_record ct obj calls = (Inr (), obj1, calls1)"
  shows "\<exists>s. attr_value ct obj ''id'' = Inr (PStr s) \<and> re_record_id_match s \<and>
             attr_value ct obj1 ''id'' = Inr (PStr s)"
proof -
  obtain r1 o1 c1 where g1: "getattr ct obj ''id'' calls = (r1, o1, c1)"
    by (cases "getattr ct obj ''id'' calls") auto
  obtain r2 o2 c2 where g2: "getattr ct o1 ''id'' c1 = (r2, o2, c2)"
    by (cases "getattr ct o1 ''id'' c1") auto
  from assms g1 g2 obtain s where s: "r1 = Inr (PStr s)" "r2 = Inr (PStr s)" "re_record_id_match s"
    and o: "obj1 = o2"
    using getattr_again(1) [of ct obj "''id''" calls _ o1 c1 c1]
    by (auto simp: validate_record_def split: sum.splits pyval.splits if_splits)
  from g1 s have "attr_value ct obj ''id'' = Inr (PStr s)"
    using getattr_value_calls [of ct obj "''id''" calls] by simp
  moreover from g2 s o have "attr_value ct obj1 ''id'' = Inr (PStr s)"
    using getattr_again(1) [of ct o1 "''id''" c1 "PStr s" o2 c2 "[]"]
    by (simp add: attr_value_def)
  ultimately show ?thesis using s by blast
qed

lemma cache_items_keeps:
  "cache_items ct items obj calls = (res, obj1, calls1) \<Longrightarrow>
   obj_class obj1 = obj_class obj \<and>
   (\<forall>k w. map_of (obj_dict obj) k = Some w \<longrightarrow> map_of (obj_dict obj1) k = Some w)"
proof (induction items arbitrary: obj calls)
  case Nil
  then show ?case by simp
next
  case (Cons p items)
  obtain a m where p: "p = (a, m)" by (cases p)
  show ?case
  proof (cases "is_cached_property m")
    case False
    with Cons p show ?thesis by simp
  next
    case True
    obtain r o1 c1 where g: "getattr ct obj a calls = (r, o1, c1)"
      by (cases "getattr ct obj a calls") auto
    show ?thesis
    proof (cases r)
      case (Inl e)
      with Cons.prems p True g have "obj1 = o1" by simp
      with getattr_keeps [OF g] show ?thesis by auto
    next
      case (Inr v)
      with Cons.prems p True g have "cache_items ct items o1 c1 = (res, obj1, calls1)" by simp
      from Cons.IH [OF this] getattr_keeps [OF g] show ?thesis by auto
    qed
  qed
qed

lemma cache_items_stored:
  "cache_items ct items obj calls = (Inr (), obj1, calls1) \<Longrightarrow>
   (a, CachedProperty cached_name func) \<in> set items \<Longrightarrow>
   lookup_member ct (mro (obj_class obj)) a = Some (CachedProperty cached_name func) \<Longrightarrow>
   \<exists>v. map_of (obj_dict obj1) cached_name = Some v"
proof (induction items arbitrary: obj calls)
  case Nil
  then show ?case by simp
next
  case (Cons p items)
  obtain b m where p: "p = (b, m)" by (cases p)
  show ?case
  proof (cases "is_cached_property m")
    case False
    with Cons.prems p have "(a, CachedProperty cached_name func) \<in> set items"
      and "cache_items ct items obj calls = (Inr (), obj1, calls1)" by auto
    with Cons.IH Cons.prems(3) show ?thesis by blast
  next
    case True
    obtain r o1 c1 where g: "getattr ct obj b calls = (r, o1, c1)"
      by (cases "getattr ct obj b calls") auto
    from Cons.prems(1) p True g obtain v where r: "r = Inr v"
      and rest: "cache_items ct items o1 c1 = (Inr (), obj1, calls1)"
      by (cases r) auto
    note k1 = getattr_keeps [OF g]
    show ?thesis
    proof (cases "(a, CachedProperty cached_name func) \<in> set items")
      case True
      with Cons.IH [OF rest] Cons.prems(3) k1(1) show ?thesis by simp
    next
      case False
      with Cons.prems(2) p have "b = a" by auto
      with g r Cons.prems(3) have "map_of (obj_dict o1) cached_name = Some v"
        by (auto dest: getattr_cached_success)
      with cache_items_keeps [OF rest] show ?thesis by blast
    qed
  qed
qed

lemma mro_hd: "\<exists>cs. mro c = c # cs"
  by (cases c) simp_all

lemma lookup_own:
  "distinct (map fst (class_dict (class_def_of ct c))) \<Longrightarrow>
   (a, m) \<in> set (class_dict (class_def_of ct c)) \<Longrightarrow>
   lookup_member ct (mro c) a = Some m"
  using mro_hd [of c] by auto

subsection \<open>The property cache\<close>

lemma validate_record_stable:
  assumes "validate_record ct obj calls = (Inr (), obj1, calls1)"
  shows "fst (snd (getattr ct obj1 ''id'' c)) = obj1"
proof -
  obtain r1 o1 c1 where g1: "getattr ct obj ''id'' calls = (r1, o1, c1)"
    by (cases "getattr ct obj ''id'' calls") auto
  obtain r2 o2 c2 where g2: "getattr ct o1 ''id'' c1 = (r2, o2, c2)"
    by (cases "getattr ct o1 ''id'' c1") auto
  from assms g1 g2 obtain v where "r2 = Inr v" "obj1 = o2"
    by (auto simp: validate_record_def split: sum.splits pyval.splits if_splits)
  with g2 getattr_again(2) [of ct o1 "''id''" c1 v o2 c2 c] show ?thesis by simp
qed

text \<open>
  What a successful call of \<^verbatim>\<open>generate_record_property_cache(obj)\<close> does for the cached
  properties bound in the \<^verbatim>\<open>__dict__\<close> of the class of \<open>obj\<close> itself, on a class whose
  \<^verbatim>\<open>__dict__\<close> binds each name once. In this order: each of them is read, after which
  each has a value stored on the instance; the id is validated, and is a string that the
  pattern accepts; \<^verbatim>\<open>raw_object\<close> is deleted from the instance if the class has the
  \<^verbatim>\<open>remove_raw_object\<close> flag set (it was there, and is gone), and nothing is deleted
  otherwise. Afterwards each of these properties, and the id when it is a cached property of
  the class or of a base class, is read from the instance: the read returns the stored value,
  calls no function and leaves the instance as it is. (A cached function called
  \<^verbatim>\<open>raw_object\<close> is left aside: its stored value is the entry that is deleted.) The loop
  does not reach a cached property that the class inherits; see the example of an inherited
  cached property below.
\<close>

lemma generate_record_property_cache_own_class:
  assumes dist: "distinct (map fst (class_dict (class_def_of ct (obj_class obj))))"
    and run: "generate_record_property_cache ct obj calls = (Inr (), obj', calls')"
  shows "\<exists>obj1 calls1 obj2.
           cache_items ct (class_dict (class_def_of ct (obj_class obj))) obj calls =
             (Inr (), obj1, calls1) \<and>
           (\<forall>a n f. (a, CachedProperty n f) \<in> set (class_dict (class_def_of ct (obj_class obj))) \<longrightarrow>
              (\<exists>v. map_of (obj_dict obj1) n = Some v)) \<and>
           validate_record ct obj1 calls1 = (Inr (), obj2, calls') \<and>
           (\<exists>s. attr_value ct obj1 ''id'' = Inr (PStr s) \<and> re_record_id_match s) \<and>
           (lookup_flag ct (mro (obj_class obj)) \<longrightarrow>
              map_of (obj_dict obj2) ''raw_object'' \<noteq> None \<and>
              obj' = obj2\<lparr>obj_dict := AList.delete ''raw_object'' (obj_dict obj2)\<rparr> \<and>
              map_of (obj_dict obj') ''raw_object'' = None) \<and>
           (\<not> lookup_flag ct (mro (obj_class obj)) \<longrightarrow> obj' = obj2) \<and>
           (\<forall>a n f. (a, CachedProperty n f) \<in> set (class_dict (class_def_of ct (obj_class obj))) \<and>
              n \<noteq> ''raw_object'' \<longrightarrow>
              (\<exists>v. map_of (obj_dict obj') n = Some v \<and>
                   (\<forall>c. getattr ct obj' a c = (Inr v, obj', c)))) \<and>
           (\<forall>n f. lookup_member ct (mro (obj_class obj)) ''id'' = Some (CachedProperty n f) \<and>
              n \<noteq> ''raw_object'' \<longrightarrow>
              (\<exists>s. re_record_id_match s \<and> map_of (obj_dict obj') n = Some (PStr s) \<and>
                   (\<forall>c. getattr ct obj' ''id'' c = (Inr (PStr s), obj', c))))"
proof -
  let ?own = "class_dict (class_def_of ct (obj_class obj))"
  let ?flag = "lookup_flag ct (mro (obj_class obj))"
  obtain r1 obj1 calls1 where ci: "cache_items ct ?own obj calls = (r1, obj1, calls1)"
    by (cases "cache_items ct ?own obj calls") auto
  from run ci have r1: "r1 = Inr ()"
    by (cases r1) (simp_all add: generate_record_property_cache_def)
  obtain r2 obj2 calls2 where va: "validate_record ct obj1 calls1 = (r2, obj2, calls2)"
    by (cases "validate_record ct obj1 calls1") auto
  from run ci r1 va have r2: "r2 = Inr ()"
    by (cases r2) (simp_all add: generate_record_property_cache_def)
  note k1 = cache_items_keeps [OF ci]
  note k2 = validate_record_keeps [OF va]
  from k1 k2 have cls2: "obj_class obj2 = obj_class obj" by simp
  from run ci r1 va r2 cls2 have c2: "calls2 = calls'"
    by (auto simp: generate_record_property_cache_def split: if_splits option.splits)
  have del: "map_of (obj_dict obj2) ''raw_object'' \<noteq> None \<and>
      obj' = obj2\<lparr>obj_dict := AList.delete ''raw_object'' (obj_dict obj2)\<rparr> \<and>
      map_of (obj_dict obj') ''raw_object'' = None" if ?flag
    using run ci r1 va r2 cls2 that
    by (auto simp: generate_record_property_cache_def delete_conv' split: option.splits)
  have nodel: "obj' = obj2" if "\<not> ?flag"
    using run ci r1 va r2 cls2 that
    by (simp add: generate_record_property_cache_def)
  have cls': "obj_class obj' = obj_class obj"
    using del nodel cls2 by (cases ?flag) auto
  have keep': "map_of (obj_dict obj') k = Some w"
    if "map_of (obj_dict obj2) k = Some w" "k \<noteq> ''raw_object''" for k w
    using del nodel that by (cases ?flag) (auto simp: delete_conv')
  have stored1: "\<exists>v. map_of (obj_dict obj1) n = Some v"
    if "(a, CachedProperty n f) \<in> set ?own" for a n f
  proof -
    from dist that have "lookup_member ct (mro (obj_class obj)) a = Some (CachedProperty n f)"
      by (rule lookup_own)
    with ci r1 that show ?thesis
      by (auto intro: cache_items_stored)
  qed
  from validate_record_success [of ct obj1 calls1 obj2 calls2] va r2
  obtain s where s: "attr_value ct obj1 ''id'' = Inr (PStr s)" "re_record_id_match s"
    "attr_value ct obj2 ''id'' = Inr (PStr s)"
    by auto
  have acc: "\<exists>v. map_of (obj_dict obj') n = Some v \<and> (\<forall>c. getattr ct obj' a c = (Inr v, obj', c))"
    if "(a, CachedProperty n f) \<in> set ?own" "n \<noteq> ''raw_object''" for a n f
  proof -
    from stored1 [OF that(1)] obtain v where "map_of (obj_dict obj1) n = Some v" ..
    with k2(2) have "map_of (obj_dict obj2) n = Some v" by simp
    with that(2) have st: "map_of (obj_dict obj') n = Some v" by (simp add: keep')
    from dist that(1) have "lookup_member ct (mro (obj_class obj')) a = Some (CachedProperty n f)"
      unfolding cls' by (rule lookup_own)
    with st have "\<forall>c. getattr ct obj' a c = (Inr v, obj', c)"
      by (simp add: getattr_cached cached_property_get_stored)
    with st show ?thesis by blast
  qed
  have accid: "\<exists>s. re_record_id_match s \<and> map_of (obj_dict obj') n = Some (PStr s) \<and>
      (\<forall>c. getattr ct obj' ''id'' c = (Inr (PStr s), obj', c))"
    if look: "lookup_member ct (mro (obj_class obj)) ''id'' = Some (CachedProperty n f)"
      and n: "n \<noteq> ''raw_object''" for n f
  proof -
    obtain o3 c3 where g: "getattr ct obj2 ''id'' [] = (Inr (PStr s), o3, c3)"
      using s(3) by (cases "getattr ct obj2 ''id'' []") (auto simp: attr_value_def)
    from look cls2 have look2: "lookup_member ct (mro (obj_class obj2)) ''id'' = Some (CachedProperty n f)"
      by simp
    have o3: "o3 = obj2"
      using validate_record_stable [OF va [unfolded r2], of "[]"] g by simp
    from getattr_cached_success [OF g look2] o3
    have "map_of (obj_dict obj2) n = Some (PStr s)" by simp
    with n have st: "map_of (obj_dict obj') n = Some (PStr s)" by (simp add: keep')
    from look cls' have "lookup_member ct (mro (obj_class obj')) ''id'' = Some (CachedProperty n f)"
      by simp
    with st have "\<forall>c. getattr ct obj' ''id'' c = (Inr (PStr s), obj', c)"
      by (simp add: getattr_cached cached_property_get_stored)
    with st s(2) show ?thesis by blast
  qed
  show ?thesis
  proof (rule exI [of _ obj1], rule exI [of _ calls1], rule exI [of _ obj2], intro conjI)
    show "cache_items ct ?own obj calls = (Inr (), obj1, calls1)"
      using ci r1 by simp
    show "\<forall>a n f. (a, CachedProperty n f) \<in> set ?own \<longrightarrow>
        (\<exists>v. map_of (obj_dict obj1) n = Some v)"
      using stored1 by blast
    show "validate_record ct obj1 calls1 = (Inr (), obj2, calls')"
      using va r2 c2 by simp
    show "\<exists>s. attr_value ct obj1 ''id'' = Inr (PStr s) \<and> re_record_id_match s"
      using s by blast
    show "?flag \<longrightarrow>
        map_of (obj_dict obj2) ''raw_object'' \<noteq> None \<and>
        obj' = obj2\<lparr>obj_dict := AList.delete ''raw_object'' (obj_dict obj2)\<rparr> \<and>
        map_of (obj_dict obj') ''raw_object'' = None"
      using del by blast
    show "\<not> ?flag \<longrightarrow> obj' = obj2"
      using nodel by blast
    show "\<forall>a n f. (a, CachedProperty n f) \<in> set ?own \<and> n \<noteq> ''raw_object'' \<longrightarrow>
        (\<exists>v. map_of (obj_dict obj') n = Some v \<and>
             (\<forall>c. getattr ct obj' a c = (Inr v, obj', c)))"
      using acc by blast
    show "\<forall>n f. lookup_member ct (mro (obj_class obj)) ''id'' = Some (CachedProperty n f) \<and>
        n \<noteq> ''raw_object'' \<longrightarrow>
        (\<exists>s. re_record_id_match s \<and> map_of (obj_dict obj') n = Some (PStr s) \<and>
             (\<forall>c. getattr ct obj' ''id'' c = (Inr (PStr s), obj', c)))"
      using accid by blast
  qed
qed

section \<open>Examples on records\<close>

text \<open>
  Two record classes for the examples: \<^verbatim>\<open>Person\<close>, whose property \<^verbatim>\<open>id\<close> returns
  \<^verbatim>\<open>self.raw_object\<close>, and its subclass \<^verbatim>\<open>Student\<close>, which adds nothing.
\<close>

definition raw_id :: "inst \<Rightarrow> error + pyval" where
  "raw_id self =
     (case map_of (obj_dict self) ''raw_object'' of
        None \<Rightarrow> Inl AttributeError
      | Some v \<Rightarrow> Inr v)"

definition Person :: cls where
  "Person = Class ''Person'' Record"

definition Student :: cls where
  "Student = Class ''Student'' Person"

definition person_classes :: class_table where
  "person_classes c =
     (if c = Person then \<lparr>class_dict = [(''id'', Property raw_id)], remove_raw_object_flag = None\<rparr>
      else \<lparr>class_dict = [], remove_raw_object_flag = None\<rparr>)"

lemma person_ids:
  "attr_value person_classes (Record_init Person (PStr ''p1'')) ''id'' = Inr (PStr ''p1'')"
  "attr_value person_classes (Record_init Student (PStr ''p1'')) ''id'' = Inr (PStr ''p1'')"
  by (simp_all add: attr_value_def getattr_def Record_init_def Person_def Student_def
      class_def_of_def person_classes_def raw_id_def)

text \<open>
  The method alone, called on a \<^verbatim>\<open>Person\<close> with a \<^verbatim>\<open>Student\<close> of the same id as argument,
  returns true, since \<^verbatim>\<open>isinstance\<close> accepts a subclass; the expression \<^verbatim>\<open>==\<close> never makes
  that call, because it asks the \<^verbatim>\<open>Student\<close> first.
\<close>

lemma Record_eq_subclass_example:
  "Record_eq person_classes (Record_init Person (PStr ''p1'')) (Record_init Student (PStr ''p1''))
     = Inr True"
  "Record_eq person_classes (Record_init Student (PStr ''p1'')) (Record_init Person (PStr ''p1''))
     = Inr False"
  by (simp_all add: Record_eq_def isinstance_def person_ids)
     (simp_all add: Record_init_def Person_def Student_def)

theorem Record_equality_witness:
  "obj_class (Record_init Person (PStr ''p1'')) \<noteq> obj_class (Record_init Student (PStr ''p1'')) \<and>
   eq_operator person_classes (Record_init Person (PStr ''p1'')) (Record_init Student (PStr ''p1''))
     = Inr False \<and>
   eq_operator person_classes (Record_init Student (PStr ''p1'')) (Record_init Person (PStr ''p1''))
     = Inr False \<and>
   eq_operator person_classes (Record_init Student (PStr ''p1'')) (Record_init Student (PStr ''p1''))
     = Inr True"
proof -
  have ne: "obj_class (Record_init Person (PStr ''p1'')) \<noteq> obj_class (Record_init Student (PStr ''p1''))"
    by (simp add: Record_init_def Person_def Student_def)
  have eq: "obj_class (Record_init Student (PStr ''p1'')) = obj_class (Record_init Student (PStr ''p1''))"
    by simp
  from ne
    Record_equality [of person_classes "Record_init Person (PStr ''p1'')" "Record_init Student (PStr ''p1'')"]
    Record_equality [of person_classes "Record_init Student (PStr ''p1'')" "Record_init Person (PStr ''p1'')"]
    Record_equality [of person_classes "Record_init Student (PStr ''p1'')" "Record_init Student (PStr ''p1'')"]
    person_ids(2)
  show ?thesis by simp
qed

lemma own_AutoGeneratedRecord:
  "class_dict (class_def_of module_classes AutoGeneratedRecord) =
     [(''id'', CachedProperty ''id'' AutoGeneratedRecord_id)]"
  by (simp add: AutoGeneratedRecord_def class_def_of_def module_classes_def
      AutoGeneratedRecord_class_def remove_raw_object_def)

lemma match_a1: "re_record_id_match ''a1''"
  by (simp add: re_record_id_match_iff)

lemma generate_AutoGeneratedRecord:
  "generate_record_property_cache module_classes
      (Record_init AutoGeneratedRecord (PDict (fmap_of_list [(''id'', PStr ''a1'')]))) [] =
     (Inr (), \<lparr>obj_class = AutoGeneratedRecord, obj_dict = [(''id'', PStr ''a1'')]\<rparr>, [''id''])"
  by (simp add: generate_record_property_cache_def Record_init_def own_AutoGeneratedRecord
      getattr_def lookup_AutoGeneratedRecord_id cached_property_get_def AutoGeneratedRecord_id_def
      validate_record_def match_a1 lookup_flag_AutoGeneratedRecord)

lemma generate_record_property_cache_own_class_example:
  "distinct (map fst (class_dict (class_def_of module_classes
      (obj_class (Record_init AutoGeneratedRecord (PDict (fmap_of_list [(''id'', PStr ''a1'')]))))))) \<and>
   generate_record_property_cache module_classes
      (Record_init AutoGeneratedRecord (PDict (fmap_of_list [(''id'', PStr ''a1'')]))) [] =
     (Inr (), \<lparr>obj_class = AutoGeneratedRecord, obj_dict = [(''id'', PStr ''a1'')]\<rparr>, [''id'']) \<and>
   (\<forall>c. getattr module_classes \<lparr>obj_class = AutoGeneratedRecord, obj_dict = [(''id'', PStr ''a1'')]\<rparr>
          ''id'' c =
        (Inr (PStr ''a1''), \<lparr>obj_class = AutoGeneratedRecord, obj_dict = [(''id'', PStr ''a1'')]\<rparr>, c))"
proof -
  let ?obj = "Record_init AutoGeneratedRecord (PDict (fmap_of_list [(''id'', PStr ''a1'')]))"
  let ?obj' = "\<lparr>obj_class = AutoGeneratedRecord, obj_dict = [(''id'', PStr ''a1'')]\<rparr>"
  have h1: "distinct (map fst (class_dict (class_def_of module_classes (obj_class ?obj))))"
    by (simp add: Record_init_def own_AutoGeneratedRecord)
  have h2: "generate_record_property_cache module_classes ?obj [] = (Inr (), ?obj', [''id''])"
    by (rule generate_AutoGeneratedRecord)
  have look: "lookup_member module_classes (mro (obj_class ?obj)) ''id'' =
      Some (CachedProperty ''id'' AutoGeneratedRecord_id)"
    by (simp add: Record_init_def lookup_AutoGeneratedRecord_id)
  from generate_record_property_cache_own_class [OF h1 h2] look
  have "\<exists>s. re_record_id_match s \<and> map_of (obj_dict ?obj') ''id'' = Some (PStr s) \<and>
      (\<forall>c. getattr module_classes ?obj' ''id'' c = (Inr (PStr s), ?obj', c))"
    by blast
  then have "\<forall>c. getattr module_classes ?obj' ''id'' c = (Inr (PStr ''a1''), ?obj', c)"
    by auto
  with h1 h2 show ?thesis by blast
qed

subsection \<open>An inherited cached property\<close>

text \<open>A getter that returns \<^verbatim>\<open>self.raw_object[key]\<close>.\<close>

definition raw_item :: "string \<Rightarrow> inst \<Rightarrow> error + pyval" where
  "raw_item key self =
     (case map_of (obj_dict self) ''raw_object'' of
        None \<Rightarrow> Inl AttributeError
      | Some (PDict d) \<Rightarrow> (case fmlookup d key of None \<Rightarrow> Inl KeyError | Some v \<Rightarrow> Inr v)
      | Some _ \<Rightarrow> Inl TypeError)"

text \<open>
  Two record classes: \<^verbatim>\<open>Named\<close>, decorated with \<^verbatim>\<open>remove_raw_object\<close>, with the cached
  properties \<^verbatim>\<open>id\<close> and \<^verbatim>\<open>name\<close>, and its subclass \<^verbatim>\<open>Employee\<close>, which adds the cached
  property \<^verbatim>\<open>title\<close>; each getter returns the item of that name of the raw object.
\<close>

definition Named :: cls where
  "Named = Class ''Named'' Record"

definition Employee :: cls where
  "Employee = Class ''Employee'' Named"

definition Named_class :: class_def where
  "Named_class =
     remove_raw_object
       \<lparr>class_dict = [(''id'', CachedProperty ''id'' (raw_item ''id'')),
                      (''name'', CachedProperty ''name'' (raw_item ''name''))],
        remove_raw_object_flag = None\<rparr>"

definition Employee_class :: class_def where
  "Employee_class =
     \<lparr>class_dict = [(''title'', CachedProperty ''title'' (raw_item ''title''))],
      remove_raw_object_flag = None\<rparr>"

definition employee_classes :: class_table where
  "employee_classes c =
     (if c = Named then Named_class
      else if c = Employee then Employee_class
      else \<lparr>class_dict = [], remove_raw_object_flag = None\<rparr>)"

text \<open>The raw object \<^verbatim>\<open>{'id': 'e1', 'name': 'ann', 'title': 'clerk'}\<close>.\<close>

definition employee_raw :: pyval where
  "employee_raw =
     PDict (fmap_of_list
       [(''id'', PStr ''e1''), (''name'', PStr ''ann''), (''title'', PStr ''clerk'')])"

lemma employee_lookups:
  "lookup_member employee_classes (mro Employee) ''title'' =
     Some (CachedProperty ''title'' (raw_item ''title''))"
  "lookup_member employee_classes (mro Employee) ''id'' =
     Some (CachedProperty ''id'' (raw_item ''id''))"
  "lookup_member employee_classes (mro Employee) ''name'' =
     Some (CachedProperty ''name'' (raw_item ''name''))"
  "class_dict (class_def_of employee_classes Employee) =
     [(''title'', CachedProperty ''title'' (raw_item ''title''))]"
  "lookup_flag employee_classes (mro Employee)"
  by (simp_all add: Employee_def Named_def class_def_of_def employee_classes_def
      Employee_class_def Named_class_def remove_raw_object_def)

lemma match_e1: "re_record_id_match ''e1''"
  by (simp add: re_record_id_match_iff)

text \<open>
  C9. After \<^verbatim>\<open>generate_record_property_cache(obj)\<close> every cached attribute of \<open>obj\<close> stays
  readable without the raw object. The code does not keep that for a cached property that
  the class of \<open>obj\<close> inherits. On an \<^verbatim>\<open>Employee\<close> made from the raw object above, a read of
  \<^verbatim>\<open>name\<close> before the call returns \<^verbatim>\<open>'ann'\<close>. The call returns without an exception: it
  has read and stored \<^verbatim>\<open>title\<close>, bound by \<^verbatim>\<open>Employee\<close> itself, then validated and so stored
  the id, then deleted \<^verbatim>\<open>raw_object\<close>, since the flag is inherited from \<^verbatim>\<open>Named\<close>; it has not
  read \<^verbatim>\<open>name\<close>, which \<^verbatim>\<open>Employee\<close> inherits as a cached property. A read of \<^verbatim>\<open>name\<close>
  after the call calls the getter, which finds no raw object and raises
  \<^verbatim>\<open>AttributeError\<close>.
\<close>

theorem generate_record_property_cache_misses_inherited:
  "getattr employee_classes (Record_init Employee employee_raw) ''name'' [] =
     (Inr (PStr ''ann''),
      \<lparr>obj_class = Employee,
       obj_dict = [(''raw_object'', employee_raw), (''name'', PStr ''ann'')]\<rparr>,
      [''name'']) \<and>
   generate_record_property_cache employee_classes (Record_init Employee employee_raw) [] =
     (Inr (),
      \<lparr>obj_class = Employee,
       obj_dict = [(''title'', PStr ''clerk''), (''id'', PStr ''e1'')]\<rparr>,
      [''title'', ''id'']) \<and>
   lookup_member employee_classes (mro Employee) ''name'' =
     Some (CachedProperty ''name'' (raw_item ''name'')) \<and>
   getattr employee_classes
      \<lparr>obj_class = Employee,
       obj_dict = [(''title'', PStr ''clerk''), (''id'', PStr ''e1'')]\<rparr> ''name'' [''title'', ''id''] =
     (Inl AttributeError,
      \<lparr>obj_class = Employee,
       obj_dict = [(''title'', PStr ''clerk''), (''id'', PStr ''e1'')]\<rparr>,
      [''title'', ''id'', ''name''])"
  by (simp add: generate_record_property_cache_def Record_init_def employee_lookups
      getattr_def cached_property_get_def raw_item_def employee_raw_def
      validate_record_def match_e1)

section \<open>Hash block generator\<close>

text \<open>
  Modelled from the spec: a \<^verbatim>\<open>Dataset\<close> (\<^verbatim>\<open>rltk/dataset.py\<close>, not at hand) exposes a dataset
  identifier string and a finite sequence of record instances.
\<close>

record dataset =
  dataset_id :: string
  records :: "inst list"

text \<open>
  Modelled from the spec: the class \<^verbatim>\<open>BlockBlackList\<close> (\<^verbatim>\<open>rltk/blocking/block_black_list.py\<close>,
  not at hand) has the methods \<^verbatim>\<open>has(key) -> bool\<close> and \<^verbatim>\<open>add(key, block)\<close>; the spec leaves
  open when a key becomes excluded. A black-list object is therefore its state together with
  the two methods as functions of the state, whatever they are.
\<close>

record 'bl BlockBlackList =
  bl_state :: 'bl
  bl_has :: "'bl \<Rightarrow> pyval \<Rightarrow> bool"
  bl_add :: "'bl \<Rightarrow> string \<Rightarrow> Block \<Rightarrow> 'bl"

text \<open>Modelled from the spec: \<^verbatim>\<open>block_black_list.has(value)\<close>\<close>

definition has :: "'bl BlockBlackList \<Rightarrow> pyval \<Rightarrow> bool" where
  "has block_black_list value = bl_has block_black_list (bl_state block_black_list) value"

text \<open>Modelled from the spec: \<^verbatim>\<open>block_black_list.add(value, block)\<close>, which updates the black-list.\<close>

definition BlockBlackList_add :: "'bl BlockBlackList \<Rightarrow> string \<Rightarrow> Block \<Rightarrow> 'bl BlockBlackList" where
  "BlockBlackList_add block_black_list value block =
     block_black_list\<lparr>bl_state := bl_add block_black_list (bl_state block_black_list) value block\<rparr>"

text \<open>
  Modelled from the spec: \<^verbatim>\<open>BlockGenerator._block_args_check\<close> (\<^verbatim>\<open>rltk/blocking/block_generator.py\<close>,
  not at hand). Exactly one of the key function and the property name must be supplied, else
  the call fails before any record is processed; the output block defaults to a fresh empty one.
\<close>

definition block_args_check ::
  "(inst \<Rightarrow> error + pyval) option \<Rightarrow> string option \<Rightarrow> Block option \<Rightarrow> error + Block" where
  "block_args_check key_function key_property block =
     (if (key_function = None) = (key_property = None) then Inl ConfigurationError
      else Inr (case block of None \<Rightarrow> Block_empty | Some b \<Rightarrow> b))"

text \<open>
  Modelled from the spec: \<^verbatim>\<open>BlockGenerator._generate_args_check\<close>: the output block defaults
  to a fresh empty one.
\<close>

definition generate_args_check :: "Block option \<Rightarrow> Block" where
  "generate_args_check output_block =
     (case output_block of None \<Rightarrow> Block_empty | Some b \<Rightarrow> b)"

text \<open>
  \<^verbatim>\<open>value = function_(r) if function_ else getattr(r, property_)\<close>: the value or the exception,
  and the record afterwards (reading a cached property fills the cache of the record). The
  key function is a pure function of the record.
\<close>

definition key_value ::
  "class_table \<Rightarrow> (inst \<Rightarrow> error + pyval) option \<Rightarrow> string option \<Rightarrow> inst \<Rightarrow>
   (error + pyval) \<times> inst" where
  "key_value ct key_function key_property r =
     (case key_function of
        Some f \<Rightarrow> (f r, r)
      | None \<Rightarrow>
          (case key_property of
             Some p \<Rightarrow> (case getattr ct r p [] of (res, r1, calls) \<Rightarrow> (res, r1))
           | None \<Rightarrow> (Inl TypeError, r)))"

text \<open>
  The outcome of a blocking pass or of a part of it: \<open>Inr\<close> with the output block and the
  black-list when it runs to its end, \<open>Inl\<close> with the exception, the output block and the
  black-list as they are when the exception is raised.
\<close>

type_synonym 'bl outcome =
  "(error \<times> Block \<times> 'bl BlockBlackList option) + (Block \<times> 'bl BlockBlackList option)"

text \<open>
  \<^verbatim>\<open>block_black_list and block_black_list.has(value)\<close>; a black-list that is supplied counts
  as true.
\<close>

definition excluded :: "'bl BlockBlackList option \<Rightarrow> pyval \<Rightarrow> bool" where
  "excluded block_black_list value =
     (case block_black_list of Some bbl \<Rightarrow> has bbl value | None \<Rightarrow> False)"

text \<open>The body of the loop of \<^verbatim>\<open>HashBlockGenerator.block\<close> for one record \<^verbatim>\<open>r\<close>.\<close>

definition block_record ::
  "class_table \<Rightarrow> string \<Rightarrow> (inst \<Rightarrow> error + pyval) option \<Rightarrow> string option \<Rightarrow> inst \<Rightarrow>
   Block \<Rightarrow> 'bl BlockBlackList option \<Rightarrow> 'bl outcome" where
  "block_record ct ds_id key_function key_property r block block_black_list =
     (case key_value ct key_function key_property r of
        (Inl e, r1) \<Rightarrow> Inl (e, block, block_black_list)
      | (Inr value, r1) \<Rightarrow>
          if excluded block_black_list value then Inr (block, block_black_list)
          else (case value of
                  PStr key \<Rightarrow>
                    (case attr_value ct r1 ''id'' of
                       Inl e \<Rightarrow> Inl (e, block, block_black_list)
                     | Inr record_id \<Rightarrow>
                         (let block1 = Block_add block key ds_id record_id
                          in Inr (block1,
                                  map_option (\<lambda>bbl. BlockBlackList_add bbl key block1)
                                    block_black_list)))
                | _ \<Rightarrow> Inl (ValueError, block, block_black_list)))"

text \<open>The loop \<^verbatim>\<open>for r in dataset\<close>.\<close>

fun block_loop ::
  "class_table \<Rightarrow> string \<Rightarrow> (inst \<Rightarrow> error + pyval) option \<Rightarrow> string option \<Rightarrow> inst list \<Rightarrow>
   Block \<Rightarrow> 'bl BlockBlackList option \<Rightarrow> 'bl outcome" where
  "block_loop ct ds_id key_function key_property [] block block_black_list =
     Inr (block, block_black_list)"
| "block_loop ct ds_id key_function key_property (r # rs) block block_black_list =
     (case block_record ct ds_id key_function key_property r block block_black_list of
        Inl raised \<Rightarrow> Inl raised
      | Inr (block1, block_black_list1) \<Rightarrow>
          block_loop ct ds_id key_function key_property rs block1 block_black_list1)"

text \<open>
  \<^verbatim>\<open>HashBlockGenerator.block(dataset, function_, property_, block, block_black_list)\<close>; on
  \<open>Inr\<close> the call returns the output block.
\<close>

definition block ::
  "class_table \<Rightarrow> dataset \<Rightarrow> (inst \<Rightarrow> error + pyval) option \<Rightarrow> string option \<Rightarrow>
   Block option \<Rightarrow> 'bl BlockBlackList option \<Rightarrow> 'bl outcome" where
  "block ct dataset key_function key_property block0 block_black_list =
     (case block_args_check key_function key_property block0 of
        Inl e \<Rightarrow> Inl (e, generate_args_check block0, block_black_list)
      | Inr b \<Rightarrow>
          block_loop ct (dataset_id dataset) key_function key_property (records dataset)
            b block_black_list)"

text \<open>The exception of an outcome, if any, and its output block.\<close>

definition raised :: "'bl outcome \<Rightarrow> error option" where
  "raised out = (case out of Inl (e, b, l) \<Rightarrow> Some e | Inr (b, l) \<Rightarrow> None)"

definition output_block :: "'bl outcome \<Rightarrow> Block" where
  "output_block out = (case out of Inl (e, b, l) \<Rightarrow> b | Inr (b, l) \<Rightarrow> b)"

text \<open>
  One loop of \<^verbatim>\<open>HashBlockGenerator.generate\<close>: every triple of the iterated block is added
  to the output block.
\<close>

definition add_all :: "(string \<times> string \<times> pyval) list \<Rightarrow> Block \<Rightarrow> Block" where
  "add_all triples output =
     fold (\<lambda>(block_id, ds_id, record_id) ob. Block_add ob block_id ds_id record_id) triples output"

text \<open>\<^verbatim>\<open>HashBlockGenerator.generate(block1, block2, output_block)\<close>\<close>

definition generate :: "Block \<Rightarrow> Block \<Rightarrow> Block option \<Rightarrow> Block" where
  "generate block1 block2 output =
     add_all (Block_iter block2) (add_all (Block_iter block1) (generate_args_check output))"

section \<open>Properties of the hash block generator\<close>

subsection \<open>Merging two blocks\<close>

lemma members_add_all: "members (add_all ts b) = set ts \<union> members b"
  by (induction ts arbitrary: b) (auto simp: add_all_def members_Block_add)

text \<open>
  C2. The block returned by \<^verbatim>\<open>generate(block1, block2)\<close> contains a triple
  (key, dataset-id, record-id) if and only if \<^verbatim>\<open>block1\<close> or \<^verbatim>\<open>block2\<close> contains it: its
  membership is the union of the two memberships. (With an output block supplied, what that
  block held before is in the result as well.)
\<close>

theorem generate_union:
  "(t \<in> members (generate block1 block2 None) \<longleftrightarrow> t \<in> members block1 \<or> t \<in> members block2) \<and>
   members (generate block1 block2 None) = members block1 \<union> members block2 \<and>
   members (generate block1 block2 (Some output)) =
     members output \<union> members block1 \<union> members block2"
  by (auto simp: generate_def generate_args_check_def members_add_all members_empty)
     (auto simp: members_def)

subsection \<open>The blocking pass\<close>

lemma block_loop_append:
  "block_loop ct d kf kp (xs @ ys) b l =
     (case block_loop ct d kf kp xs b l of
        Inl x \<Rightarrow> Inl x
      | Inr (b1, l1) \<Rightarrow> block_loop ct d kf kp ys b1 l1)"
  by (induction xs arbitrary: b l) (auto split: sum.splits)

lemma block_loop_single:
  "block_loop ct d kf kp [r] b l = block_record ct d kf kp r b l"
  by (auto split: sum.splits)

lemma block_append:
  "block ct \<lparr>dataset_id = d, records = xs @ ys\<rparr> kf kp b0 l0 =
     (case block ct \<lparr>dataset_id = d, records = xs\<rparr> kf kp b0 l0 of
        Inl x \<Rightarrow> Inl x
      | Inr (b1, l1) \<Rightarrow> block_loop ct d kf kp ys b1 l1)"
  by (simp add: block_def block_loop_append split: sum.splits)

lemma block_then_record:
  "block ct \<lparr>dataset_id = d, records = pre\<rparr> kf kp b0 l0 = Inr (b1, l1) \<Longrightarrow>
   block ct \<lparr>dataset_id = d, records = pre @ r # post\<rparr> kf kp b0 l0 =
     (case block_record ct d kf kp r b1 l1 of
        Inl x \<Rightarrow> Inl x
      | Inr (b2, l2) \<Rightarrow> block_loop ct d kf kp post b2 l2)"
  by (simp add: block_append)

lemma block_record_members:
  "members b \<subseteq> members (output_block (block_record ct d kf kp r b l))"
  by (auto simp: block_record_def output_block_def members_Block_add Let_def
      split: prod.splits sum.splits pyval.splits)

lemma block_record_Inr_members:
  "block_record ct d kf kp r b l = Inr (b1, l1) \<Longrightarrow> members b \<subseteq> members b1"
  using block_record_members [of b ct d kf kp r l] by (simp add: output_block_def)

lemma block_record_Inl_block:
  "block_record ct d kf kp r b l = Inl (e, b1, l1) \<Longrightarrow> b1 = b \<and> l1 = l"
  by (auto simp: block_record_def Let_def split: prod.splits sum.splits pyval.splits if_splits)

lemma block_loop_members:
  "members b \<subseteq> members (output_block (block_loop ct d kf kp rs b l))"
proof (induction rs arbitrary: b l)
  case Nil
  show ?case by (simp add: output_block_def)
next
  case (Cons r rs)
  show ?case
  proof (cases "block_record ct d kf kp r b l")
    case (Inl x)
    obtain e b1 l1 where x: "x = (e, b1, l1)" by (cases x)
    with Inl block_record_Inl_block [of ct d kf kp r b l e b1 l1] show ?thesis
      by (simp add: output_block_def)
  next
    case (Inr y)
    obtain b1 l1 where y: "y = (b1, l1)" by (cases y)
    with Inr have "members b \<subseteq> members b1" by (auto dest: block_record_Inr_members)
    with Cons.IH [of b1 l1] Inr y show ?thesis by auto
  qed
qed

lemma block_loop_no_black_list:
  assumes "\<forall>r\<in>set rs. \<exists>k. f r = Inr (PStr k)"
    and "\<forall>r\<in>set rs. \<exists>i. attr_value ct r ''id'' = Inr i"
  shows "\<exists>B. block_loop ct d (Some f) None rs b (None :: 'bl BlockBlackList option) = Inr (B, None) \<and>
           members B = members b \<union>
             {(k, d, i) |r k i. r \<in> set rs \<and> f r = Inr (PStr k) \<and> attr_value ct r ''id'' = Inr i} \<and>
           (Block_wf b \<longrightarrow> Block_wf B)"
  using assms
proof (induction rs arbitrary: b)
  case Nil
  show ?case by simp
next
  case (Cons r rs)
  from Cons.prems obtain k i where k: "f r = Inr (PStr k)" and i: "attr_value ct r ''id'' = Inr i"
    by auto
  have step: "block_record ct d (Some f) None r b (None :: 'bl BlockBlackList option) =
      Inr (Block_add b k d i, None)"
    using k i by (simp add: block_record_def key_value_def excluded_def)
  from Cons.prems have "\<forall>r\<in>set rs. \<exists>k. f r = Inr (PStr k)"
    and "\<forall>r\<in>set rs. \<exists>i. attr_value ct r ''id'' = Inr i" by auto
  from Cons.IH [OF this, of "Block_add b k d i"]
  obtain B where B: "block_loop ct d (Some f) None rs (Block_add b k d i)
      (None :: 'bl BlockBlackList option) = Inr (B, None)"
    and mem: "members B = members (Block_add b k d i) \<union>
      {(k, d, i) |r k i. r \<in> set rs \<and> f r = Inr (PStr k) \<and> attr_value ct r ''id'' = Inr i}"
    and wf: "Block_wf (Block_add b k d i) \<longrightarrow> Block_wf B"
    by blast
  from step B have "block_loop ct d (Some f) None (r # rs) b (None :: 'bl BlockBlackList option) =
      Inr (B, None)" by simp
  moreover from mem k i have "members B = members b \<union>
      {(k, d, i) |r' k i. r' \<in> set (r # rs) \<and> f r' = Inr (PStr k) \<and> attr_value ct r' ''id'' = Inr i}"
    by (auto simp: members_Block_add)
  moreover from wf have "Block_wf b \<longrightarrow> Block_wf B" by (simp add: Block_add_wf)
  ultimately show ?case by blast
qed

text \<open>
  C1. Let \<open>f\<close> return a string on every record of the dataset \<open>D\<close> (and let every record
  have an id that can be read). Then \<^verbatim>\<open>block(D, f)\<close>, with no output block and no black-list
  supplied, returns a block whose triples are exactly the triples
  (\<open>f(r)\<close>, id of \<open>D\<close>, id of \<open>r\<close>) for the records \<open>r\<close> of \<open>D\<close>, each listed once. So every
  record is in the group of its key as the pair (dataset id, record id); and when the records
  of \<open>D\<close> have different ids, the pair of a record is in the group of \<open>k\<close> only for
  \<open>k = f(r)\<close>, that is, in exactly one group.
\<close>

theorem block_groups_every_record:
  assumes keys: "\<forall>r\<in>set (records D). \<exists>k. f r = Inr (PStr k)"
    and ids: "\<forall>r\<in>set (records D). \<exists>i. attr_value ct r ''id'' = Inr i"
  shows "\<exists>B. block ct D (Some f) None None (None :: 'bl BlockBlackList option) = Inr (B, None) \<and>
           members B =
             {(k, dataset_id D, i) |r k i.
                r \<in> set (records D) \<and> f r = Inr (PStr k) \<and> attr_value ct r ''id'' = Inr i} \<and>
           Block_wf B \<and>
           (inj_on (\<lambda>r. attr_value ct r ''id'') (set (records D)) \<longrightarrow>
              (\<forall>r\<in>set (records D). \<forall>k i. attr_value ct r ''id'' = Inr i \<longrightarrow>
                 ((k, dataset_id D, i) \<in> members B \<longleftrightarrow> f r = Inr (PStr k))))"
proof -
  from block_loop_no_black_list [OF keys ids, of "dataset_id D" Block_empty, where ?'bl = 'bl]
  obtain B where B: "block_loop ct (dataset_id D) (Some f) None (records D) Block_empty None =
      Inr (B, None :: 'bl BlockBlackList option)"
    and mem: "members B =
      {(k, dataset_id D, i) |r k i.
         r \<in> set (records D) \<and> f r = Inr (PStr k) \<and> attr_value ct r ''id'' = Inr i}"
    and wf: "Block_wf B"
    by (auto simp: members_empty) (auto simp: Block_wf_def Block_empty_def)
  from B have run: "block ct D (Some f) None None (None :: 'bl BlockBlackList option) = Inr (B, None)"
    by (simp add: block_def block_args_check_def)
  have one: "(k, dataset_id D, i) \<in> members B \<longleftrightarrow> f r = Inr (PStr k)"
    if inj: "inj_on (\<lambda>r. attr_value ct r ''id'') (set (records D))"
      and r: "r \<in> set (records D)" and i: "attr_value ct r ''id'' = Inr i" for r k i
  proof
    assume "(k, dataset_id D, i) \<in> members B"
    with mem obtain r' where r': "r' \<in> set (records D)" "f r' = Inr (PStr k)"
      "attr_value ct r' ''id'' = Inr i" by auto
    with inj r i have "r' = r" by (auto simp: inj_on_def)
    with r' show "f r = Inr (PStr k)" by simp
  next
    assume "f r = Inr (PStr k)"
    with mem r i show "(k, dataset_id D, i) \<in> members B" by auto
  qed
  from run mem wf one show ?thesis by blast
qed

text \<open>
  C3. In a call of \<^verbatim>\<open>block\<close> with a black-list supplied, let the pass have reached the record
  \<open>r\<close> with the output block \<open>b1\<close> and the black-list \<open>l1\<close>, and let the key of \<open>r\<close> be
  \<open>value\<close>. If \<^verbatim>\<open>has(value)\<close> holds now, the record is skipped: after it the block and
  the black-list are as before. If it does not hold, and the key is a string and the id of
  the record can be read, the record is added to the block under its key and the black-list
  is then told of the key and the block, already with the new entry. Whatever the
  black-list answers from then on, and however the pass goes on or ends, every entry that
  was in the block when \<open>r\<close> was reached is still in it.
\<close>

theorem block_skips_excluded_keys:
  assumes pre: "block ct \<lparr>dataset_id = d, records = pre\<rparr> kf kp b0 (Some l0) = Inr (b1, Some l1)"
    and key: "key_value ct kf kp r = (Inr value, r1)"
  shows "(has l1 value \<longrightarrow>
            block ct \<lparr>dataset_id = d, records = pre @ [r]\<rparr> kf kp b0 (Some l0) = Inr (b1, Some l1)) \<and>
         (\<not> has l1 value \<longrightarrow>
            (\<forall>key record_id. value = PStr key \<and> attr_value ct r1 ''id'' = Inr record_id \<longrightarrow>
               block ct \<lparr>dataset_id = d, records = pre @ [r]\<rparr> kf kp b0 (Some l0) =
                 Inr (Block_add b1 key d record_id,
                      Some (BlockBlackList_add l1 key (Block_add b1 key d record_id))))) \<and>
         (\<forall>post. members b1 \<subseteq>
            members (output_block
              (block ct \<lparr>dataset_id = d, records = pre @ r # post\<rparr> kf kp b0 (Some l0))))"
proof -
  have skip: "block ct \<lparr>dataset_id = d, records = pre @ [r]\<rparr> kf kp b0 (Some l0) = Inr (b1, Some l1)"
    if "has l1 value"
    using that key by (simp add: block_then_record [OF pre] block_record_def excluded_def)
  have add: "block ct \<lparr>dataset_id = d, records = pre @ [r]\<rparr> kf kp b0 (Some l0) =
      Inr (Block_add b1 key d record_id,
           Some (BlockBlackList_add l1 key (Block_add b1 key d record_id)))"
    if "\<not> has l1 value" "value = PStr key" "attr_value ct r1 ''id'' = Inr record_id"
    for key record_id
    using that key
    by (simp add: block_then_record [OF pre] block_record_def excluded_def Let_def)
  have keep: "members b1 \<subseteq>
      members (output_block (block ct \<lparr>dataset_id = d, records = pre @ r # post\<rparr> kf kp b0 (Some l0)))"
    for post
  proof -
    have "block ct \<lparr>dataset_id = d, records = pre @ r # post\<rparr> kf kp b0 (Some l0) =
        block_loop ct d kf kp (r # post) b1 (Some l1)"
      using block_append [of ct d pre "r # post" kf kp b0 "Some l0"] pre by simp
    then show ?thesis
      using block_loop_members [of b1 ct d kf kp "r # post" "Some l1"] by simp
  qed
  from skip add keep show ?thesis by blast
qed

text \<open>
  C4 (as amended). If the key of a record is not a string and is not excluded by the
  black-list, \<^verbatim>\<open>block\<close> raises \<^verbatim>\<open>ValueError\<close> at that record: the output block and the
  black-list stay as they were when the record was reached, so the key is not coerced and
  nothing is added for the record, and the records after it play no part in the outcome.
\<close>

theorem block_non_string_key_raises_ValueError:
  assumes pre: "block ct \<lparr>dataset_id = d, records = pre\<rparr> kf kp b0 l0 = Inr (b1, l1)"
    and key: "key_value ct kf kp r = (Inr value, r1)"
    and nonstr: "\<not> isinstance_str value"
    and notex: "\<not> excluded l1 value"
  shows "block ct \<lparr>dataset_id = d, records = pre @ r # post\<rparr> kf kp b0 l0 = Inl (ValueError, b1, l1)"
proof -
  from key nonstr notex have "block_record ct d kf kp r b1 l1 = Inl (ValueError, b1, l1)"
    by (cases "value") (simp_all add: block_record_def)
  then show ?thesis
    by (simp add: block_then_record [OF pre])
qed

text \<open>
  C10. In a call of \<^verbatim>\<open>block\<close> with a black-list supplied, let the pass have reached a
  record with the key \<open>value\<close>, a string or not. If the black-list reports the key as
  excluded, the record is skipped without any exception, and the pass goes on with the next
  record from the same block and black-list. If the key is not a string and is not excluded,
  \<^verbatim>\<open>ValueError\<close> is raised. So the exception for a key that is not a string is raised at
  this record exactly when the key is not excluded.
\<close>

theorem block_exclusion_before_type_check:
  assumes pre: "block ct \<lparr>dataset_id = d, records = pre\<rparr> kf kp b0 (Some l0) = Inr (b1, Some l1)"
    and key: "key_value ct kf kp r = (Inr value, r1)"
  shows "(has l1 value \<longrightarrow>
            block ct \<lparr>dataset_id = d, records = pre @ [r]\<rparr> kf kp b0 (Some l0) = Inr (b1, Some l1) \<and>
            (\<forall>post. block ct \<lparr>dataset_id = d, records = pre @ r # post\<rparr> kf kp b0 (Some l0) =
               block_loop ct d kf kp post b1 (Some l1))) \<and>
         (\<not> isinstance_str value \<longrightarrow>
            (\<not> has l1 value \<longrightarrow>
               block ct \<lparr>dataset_id = d, records = pre @ [r]\<rparr> kf kp b0 (Some l0) =
                 Inl (ValueError, b1, Some l1)) \<and>
            (raised (block ct \<lparr>dataset_id = d, records = pre @ [r]\<rparr> kf kp b0 (Some l0)) =
               Some ValueError \<longleftrightarrow> \<not> has l1 value))"
proof (cases "has l1 value")
  case True
  with key have "block_record ct d kf kp r b1 (Some l1) = Inr (b1, Some l1)"
    by (simp add: block_record_def excluded_def)
  with True show ?thesis
    by (simp add: block_then_record [OF pre] raised_def)
next
  case False
  show ?thesis
  proof (cases "isinstance_str value")
    case True
    with False show ?thesis by simp
  next
    case nonstr: False
    with key False have "block_record ct d kf kp r b1 (Some l1) = Inl (ValueError, b1, Some l1)"
      by (cases "value") (simp_all add: block_record_def excluded_def)
    with False show ?thesis
      by (simp add: block_then_record [OF pre] raised_def)
  qed
qed

section \<open>Examples of blocking passes\<close>

text \<open>
  The key function \<^verbatim>\<open>lambda r: r.name\<close> on records that hold \<^verbatim>\<open>name\<close> as an instance
  attribute, and a \<^verbatim>\<open>Person\<close> with a given id and name.
\<close>

definition name_key :: "inst \<Rightarrow> error + pyval" where
  "name_key r =
     (case map_of (obj_dict r) ''name'' of
        None \<Rightarrow> Inl AttributeError
      | Some v \<Rightarrow> Inr v)"

definition person :: "string \<Rightarrow> pyval \<Rightarrow> inst" where
  "person i name =
     \<lparr>obj_class = Person, obj_dict = [(''raw_object'', PStr i), (''name'', name)]\<rparr>"

text \<open>The number of entries that a block holds under a key.\<close>

definition entries_under :: "Block \<Rightarrow> string \<Rightarrow> nat" where
  "entries_under b key = length (filter (\<lambda>t. fst t = key) (Block_iter b))"

text \<open>
  Modelled from the spec: one black-list that the contract of \<^verbatim>\<open>BlockBlackList\<close> admits. It
  excludes the keys in its state; \<^verbatim>\<open>add\<close> puts a key there once the block holds more than
  \<open>max_size\<close> entries under it.
\<close>

definition size_black_list :: "nat \<Rightarrow> pyval list \<Rightarrow> (pyval list) BlockBlackList" where
  "size_black_list max_size keys =
     \<lparr>bl_state = keys,
      bl_has = (\<lambda>st value. value \<in> set st),
      bl_add = (\<lambda>st key b.
        if max_size < entries_under b key \<and> PStr key \<notin> set st then st @ [PStr key] else st)\<rparr>"

lemma person_id: "attr_value person_classes (person i name) ''id'' = Inr (PStr i)"
  by (simp add: attr_value_def getattr_def person_def Person_def class_def_of_def
      person_classes_def raw_id_def)

lemma person_name: "name_key (person i name) = Inr name"
  by (simp add: name_key_def person_def)

lemma person_key: "key_value ct (Some name_key) None (person i name) = (Inr name, person i name)"
  by (simp add: key_value_def person_name)

lemma person_inject: "person i n = person j m \<longleftrightarrow> i = j \<and> n = m"
  by (auto simp: person_def)

lemma has_size_black_list: "has (size_black_list m keys) v \<longleftrightarrow> v \<in> set keys"
  by (simp add: has_def size_black_list_def)

lemma add_size_black_list:
  "BlockBlackList_add (size_black_list m keys) key b =
     size_black_list m
       (if m < entries_under b key \<and> PStr key \<notin> set keys then keys @ [PStr key] else keys)"
  by (simp add: BlockBlackList_add_def size_black_list_def)

lemma block_person_record:
  "block_record person_classes d (Some name_key) None (person i (PStr k)) b
      (Some (size_black_list m keys)) =
     (if PStr k \<in> set keys then Inr (b, Some (size_black_list m keys))
      else Inr (Block_add b k d (PStr i),
                Some (size_black_list m
                  (if m < entries_under (Block_add b k d (PStr i)) k then keys @ [PStr k]
                   else keys))))"
  by (simp add: block_record_def person_key excluded_def has_size_black_list person_id
      add_size_black_list Let_def)

lemma block_person_record_no_list:
  "block_record person_classes d (Some name_key) None (person i (PStr k)) b
      (None :: unit BlockBlackList option) = Inr (Block_add b k d (PStr i), None)"
  by (simp add: block_record_def person_key excluded_def person_id Let_def)

lemma block_run:
  "block ct \<lparr>dataset_id = d, records = rs\<rparr> (Some f) None None l =
     block_loop ct d (Some f) None rs [] l"
  by (simp add: block_def block_args_check_def Block_empty_def)

theorem block_groups_every_record_witness:
  "name_key (person ''a1'' (PStr ''john'')) = Inr (PStr ''john'') \<and>
   name_key (person ''a2'' (PStr ''mary'')) = Inr (PStr ''mary'') \<and>
   attr_value person_classes (person ''a1'' (PStr ''john'')) ''id'' = Inr (PStr ''a1'') \<and>
   attr_value person_classes (person ''a2'' (PStr ''mary'')) ''id'' = Inr (PStr ''a2'') \<and>
   block person_classes
      \<lparr>dataset_id = ''A'', records = [person ''a1'' (PStr ''john''), person ''a2'' (PStr ''mary'')]\<rparr>
      (Some name_key) None None (None :: unit BlockBlackList option) =
     Inr ([(''john'', [(''A'', [PStr ''a1''])]), (''mary'', [(''A'', [PStr ''a2''])])], None) \<and>
   (''john'', ''A'', PStr ''a1'') \<in>
     members [(''john'', [(''A'', [PStr ''a1''])]), (''mary'', [(''A'', [PStr ''a2''])])] \<and>
   (''mary'', ''A'', PStr ''a1'') \<notin>
     members [(''john'', [(''A'', [PStr ''a1''])]), (''mary'', [(''A'', [PStr ''a2''])])]"
proof -
  let ?D = "\<lparr>dataset_id = ''A'',
      records = [person ''a1'' (PStr ''john''), person ''a2'' (PStr ''mary'')]\<rparr>"
  let ?B = "[(''john'', [(''A'', [PStr ''a1''])]), (''mary'', [(''A'', [PStr ''a2''])])]"
  have keys: "\<forall>r\<in>set (records ?D). \<exists>k. name_key r = Inr (PStr k)"
    by (simp add: person_name)
  have ids: "\<forall>r\<in>set (records ?D). \<exists>i. attr_value person_classes r ''id'' = Inr i"
    by (simp add: person_id)
  have inj: "inj_on (\<lambda>r. attr_value person_classes r ''id'') (set (records ?D))"
    by (simp add: person_id person_inject)
  have run: "block person_classes ?D (Some name_key) None None (None :: unit BlockBlackList option) =
      Inr (?B, None)"
    by (simp add: block_run block_person_record_no_list add_record_id_def)
  from block_groups_every_record [OF keys ids, where ?'bl = unit] run inj
  have "\<forall>r\<in>set (records ?D). \<forall>k i. attr_value person_classes r ''id'' = Inr i \<longrightarrow>
      ((k, dataset_id ?D, i) \<in> members ?B \<longleftrightarrow> name_key r = Inr (PStr k))"
    by auto
  then have "(''john'', ''A'', PStr ''a1'') \<in> members ?B \<and> (''mary'', ''A'', PStr ''a1'') \<notin> members ?B"
    by (simp add: person_id person_name)
  with run show ?thesis by (simp add: person_id person_name)
qed

theorem block_skips_excluded_keys_witness:
  "block person_classes
      \<lparr>dataset_id = ''A'', records = [person ''a1'' (PStr ''john'')]\<rparr>
      (Some name_key) None None (Some (size_black_list 1 [])) =
     Inr ([(''john'', [(''A'', [PStr ''a1''])])], Some (size_black_list 1 [])) \<and>
   key_value person_classes (Some name_key) None (person ''a2'' (PStr ''john'')) =
     (Inr (PStr ''john''), person ''a2'' (PStr ''john'')) \<and>
   \<not> has (size_black_list 1 []) (PStr ''john'') \<and>
   block person_classes
      \<lparr>dataset_id = ''A'', records = [person ''a1'' (PStr ''john'')] @ [person ''a2'' (PStr ''john'')]\<rparr>
      (Some name_key) None None (Some (size_black_list 1 [])) =
     Inr ([(''john'', [(''A'', [PStr ''a1'', PStr ''a2''])])],
          Some (size_black_list 1 [PStr ''john''])) \<and>
   has (size_black_list 1 [PStr ''john'']) (PStr ''john'') \<and>
   block person_classes
      \<lparr>dataset_id = ''A'',
       records = ([person ''a1'' (PStr ''john'')] @ [person ''a2'' (PStr ''john'')]) @
                 [person ''a3'' (PStr ''john'')]\<rparr>
      (Some name_key) None None (Some (size_black_list 1 [])) =
     Inr ([(''john'', [(''A'', [PStr ''a1'', PStr ''a2''])])],
          Some (size_black_list 1 [PStr ''john'']))"
proof -
  let ?pre = "[person ''a1'' (PStr ''john'')]"
  let ?b1 = "[(''john'', [(''A'', [PStr ''a1''])])]"
  let ?b2 = "[(''john'', [(''A'', [PStr ''a1'', PStr ''a2''])])]"
  have h1: "block person_classes \<lparr>dataset_id = ''A'', records = ?pre\<rparr>
      (Some name_key) None None (Some (size_black_list 1 [])) =
      Inr (?b1, Some (size_black_list 1 []))"
    by (simp add: block_run block_person_record entries_under_def Block_iter_def)
  have k2: "key_value person_classes (Some name_key) None (person ''a2'' (PStr ''john'')) =
      (Inr (PStr ''john''), person ''a2'' (PStr ''john''))"
    by (rule person_key)
  have k3: "key_value person_classes (Some name_key) None (person ''a3'' (PStr ''john'')) =
      (Inr (PStr ''john''), person ''a3'' (PStr ''john''))"
    by (rule person_key)
  have n1: "\<not> has (size_black_list 1 []) (PStr ''john'')"
    by (simp add: has_size_black_list)
  from block_skips_excluded_keys [OF h1 k2] n1
  have h2: "block person_classes
      \<lparr>dataset_id = ''A'', records = ?pre @ [person ''a2'' (PStr ''john'')]\<rparr>
      (Some name_key) None None (Some (size_black_list 1 [])) =
      Inr (?b2, Some (size_black_list 1 [PStr ''john'']))"
    by (simp add: person_id add_size_black_list add_record_id_def entries_under_def Block_iter_def)
  have n2: "has (size_black_list 1 [PStr ''john'']) (PStr ''john'')"
    by (simp add: has_size_black_list)
  from block_skips_excluded_keys [OF h2 k3] n2
  have h3: "block person_classes
      \<lparr>dataset_id = ''A'', records = (?pre @ [person ''a2'' (PStr ''john'')]) @
        [person ''a3'' (PStr ''john'')]\<rparr>
      (Some name_key) None None (Some (size_black_list 1 [])) =
      Inr (?b2, Some (size_black_list 1 [PStr ''john'']))"
    by blast
  from h1 k2 n1 h2 n2 h3 show ?thesis by blast
qed

lemma block_person_record_non_string:
  "\<not> isinstance_str v \<Longrightarrow>
   block_record person_classes d (Some name_key) None (person i v) b l =
     (if excluded l v then Inr (b, l) else Inl (ValueError, b, l))"
  by (cases v) (simp_all add: block_record_def person_key)

text \<open>
  On a dataset whose only record has the key 7, \<^verbatim>\<open>block\<close> raises \<^verbatim>\<open>ValueError\<close>, which is
  not \<^verbatim>\<open>TypeError\<close>.
\<close>

theorem block_non_string_key_not_TypeError:
  "raised (block person_classes \<lparr>dataset_id = ''A'', records = [person ''a1'' (PInt 7)]\<rparr>
      (Some name_key) None None (None :: unit BlockBlackList option)) = Some ValueError \<and>
   raised (block person_classes \<lparr>dataset_id = ''A'', records = [person ''a1'' (PInt 7)]\<rparr>
      (Some name_key) None None (None :: unit BlockBlackList option)) \<noteq> Some TypeError"
  by (simp add: block_run block_person_record_non_string excluded_def raised_def)

theorem block_non_string_key_raises_ValueError_witness:
  "block person_classes \<lparr>dataset_id = ''A'', records = [person ''a1'' (PStr ''john'')]\<rparr>
      (Some name_key) None None (None :: unit BlockBlackList option) =
     Inr ([(''john'', [(''A'', [PStr ''a1''])])], None) \<and>
   key_value person_classes (Some name_key) None (person ''a2'' (PInt 7)) =
     (Inr (PInt 7), person ''a2'' (PInt 7)) \<and>
   \<not> isinstance_str (PInt 7) \<and>
   \<not> excluded (None :: unit BlockBlackList option) (PInt 7) \<and>
   block person_classes
      \<lparr>dataset_id = ''A'',
       records = [person ''a1'' (PStr ''john'')] @ person ''a2'' (PInt 7) #
                 [person ''a3'' (PStr ''mary'')]\<rparr>
      (Some name_key) None None (None :: unit BlockBlackList option) =
     Inl (ValueError, [(''john'', [(''A'', [PStr ''a1''])])], None)"
proof -
  have h1: "block person_classes \<lparr>dataset_id = ''A'', records = [person ''a1'' (PStr ''john'')]\<rparr>
      (Some name_key) None None (None :: unit BlockBlackList option) =
      Inr ([(''john'', [(''A'', [PStr ''a1''])])], None)"
    by (simp add: block_run block_person_record_no_list)
  have h2: "key_value person_classes (Some name_key) None (person ''a2'' (PInt 7)) =
      (Inr (PInt 7), person ''a2'' (PInt 7))"
    by (rule person_key)
  have h3: "\<not> isinstance_str (PInt 7)" by simp
  have h4: "\<not> excluded (None :: unit BlockBlackList option) (PInt 7)"
    by (simp add: excluded_def)
  from block_non_string_key_raises_ValueError [OF h1 h2 h3 h4, of "[person ''a3'' (PStr ''mary'')]"]
    h1 h2 h3 h4
  show ?thesis by blast
qed

theorem block_exclusion_before_type_check_witness:
  "block person_classes \<lparr>dataset_id = ''A'', records = [person ''a1'' (PStr ''john'')]\<rparr>
      (Some name_key) None None (Some (size_black_list 1 [PNone])) =
     Inr ([(''john'', [(''A'', [PStr ''a1''])])], Some (size_black_list 1 [PNone])) \<and>
   key_value person_classes (Some name_key) None (person ''a2'' PNone) =
     (Inr PNone, person ''a2'' PNone) \<and>
   \<not> isinstance_str PNone \<and>
   has (size_black_list 1 [PNone]) PNone \<and>
   block person_classes
      \<lparr>dataset_id = ''A'', records = [person ''a1'' (PStr ''john'')] @ [person ''a2'' PNone]\<rparr>
      (Some name_key) None None (Some (size_black_list 1 [PNone])) =
     Inr ([(''john'', [(''A'', [PStr ''a1''])])], Some (size_black_list 1 [PNone])) \<and>
   key_value person_classes (Some name_key) None (person ''a2'' (PInt 7)) =
     (Inr (PInt 7), person ''a2'' (PInt 7)) \<and>
   \<not> isinstance_str (PInt 7) \<and>
   \<not> has (size_black_list 1 [PNone]) (PInt 7) \<and>
   block person_classes
      \<lparr>dataset_id = ''A'', records = [person ''a1'' (PStr ''john'')] @ [person ''a2'' (PInt 7)]\<rparr>
      (Some name_key) None None (Some (size_black_list 1 [PNone])) =
     Inl (ValueError, [(''john'', [(''A'', [PStr ''a1''])])], Some (size_black_list 1 [PNone]))"
proof -
  have h1: "block person_classes \<lparr>dataset_id = ''A'', records = [person ''a1'' (PStr ''john'')]\<rparr>
      (Some name_key) None None (Some (size_black_list 1 [PNone])) =
      Inr ([(''john'', [(''A'', [PStr ''a1''])])], Some (size_black_list 1 [PNone]))"
    by (simp add: block_run block_person_record entries_under_def Block_iter_def)
  have k1: "key_value person_classes (Some name_key) None (person ''a2'' PNone) =
      (Inr PNone, person ''a2'' PNone)"
    by (rule person_key)
  have k2: "key_value person_classes (Some name_key) None (person ''a2'' (PInt 7)) =
      (Inr (PInt 7), person ''a2'' (PInt 7))"
    by (rule person_key)
  have t1: "\<not> isinstance_str PNone" and t2: "\<not> isinstance_str (PInt 7)" by simp_all
  have x1: "has (size_black_list 1 [PNone]) PNone"
    and x2: "\<not> has (size_black_list 1 [PNone]) (PInt 7)"
    by (simp_all add: has_size_black_list)
  from block_exclusion_before_type_check [OF h1 k1] x1
  have r1: "block person_classes
      \<lparr>dataset_id = ''A'', records = [person ''a1'' (PStr ''john'')] @ [person ''a2'' PNone]\<rparr>
      (Some name_key) None None (Some (size_black_list 1 [PNone])) =
      Inr ([(''john'', [(''A'', [PStr ''a1''])])], Some (size_black_list 1 [PNone]))"
    by blast
  from block_exclusion_before_type_check [OF h1 k2] t2 x2
  have r2: "block person_classes
      \<lparr>dataset_id = ''A'', records = [person ''a1'' (PStr ''john'')] @ [person ''a2'' (PInt 7)]\<rparr>
      (Some name_key) None None (Some (size_black_list 1 [PNone])) =
      Inl (ValueError, [(''john'', [(''A'', [PStr ''a1''])])], Some (size_black_list 1 [PNone]))"
    by blast
  from h1 k1 t1 x1 r1 k2 t2 x2 r2 show ?thesis by blast
qed

text \<open>
  Two datasets blocked on the attribute \<^verbatim>\<open>name\<close> and merged: \<^verbatim>\<open>john\<close> groups \<^verbatim>\<open>a1\<close> of
  \<^verbatim>\<open>A\<close> with \<^verbatim>\<open>b1\<close> of \<^verbatim>\<open>B\<close>, \<^verbatim>\<open>mary\<close> holds \<^verbatim>\<open>a2\<close> of \<^verbatim>\<open>A\<close> alone.
\<close>

lemma blocking_example:
  "block person_classes
      \<lparr>dataset_id = ''A'', records = [person ''a1'' (PStr ''john''), person ''a2'' (PStr ''mary'')]\<rparr>
      None (Some ''name'') None (None :: unit BlockBlackList option) =
     Inr ([(''john'', [(''A'', [PStr ''a1''])]), (''mary'', [(''A'', [PStr ''a2''])])], None)"
  "block person_classes \<lparr>dataset_id = ''B'', records = [person ''b1'' (PStr ''john'')]\<rparr>
      None (Some ''name'') None (None :: unit BlockBlackList option) =
     Inr ([(''john'', [(''B'', [PStr ''b1''])])], None)"
  "generate [(''john'', [(''A'', [PStr ''a1''])]), (''mary'', [(''A'', [PStr ''a2''])])]
      [(''john'', [(''B'', [PStr ''b1''])])] None =
     [(''john'', [(''A'', [PStr ''a1'']), (''B'', [PStr ''b1''])]), (''mary'', [(''A'', [PStr ''a2''])])]"
  by (simp_all add: block_def block_args_check_def Block_empty_def block_record_def key_value_def
      getattr_def person_def Person_def class_def_of_def person_classes_def raw_id_def
      attr_value_def excluded_def Let_def generate_def generate_args_check_def add_all_def
      Block_iter_def Record_class_def add_record_id_def)

end
